theory Spec2Isabelle
  imports Complex_Main
begin

section \<open>Product attention insights: job queue, worker and uninstall webhook\<close>

text \<open>
  A shallow embedding of \<^verbatim>\<open>app/insights/signals.server.ts\<close>, \<^verbatim>\<open>app/jobs.server.ts\<close>,
  \<^verbatim>\<open>scripts/worker.ts\<close>, the \<^verbatim>\<open>action\<close> of \<^verbatim>\<open>app/routes/app.insights.tsx\<close> and
  \<^verbatim>\<open>app/routes/webhooks.app.uninstalled.tsx\<close>.

  Conventions. The Prisma client is modelled by a record \<open>store\<close> with one list of rows
  per table, named as the client's accessors (\<^verbatim>\<open>prisma.insightJob\<close>, ...). A row type is a
  record whose fields carry a short prefix (\<open>j_\<close>, \<open>i_\<close>, \<open>r_\<close>, \<open>we_\<close>, \<open>se_\<close>), because
  the tables share column names. A JavaScript \<^verbatim>\<open>Date\<close> is its number of milliseconds, an
  \<open>int\<close>; every read of the clock (\<^verbatim>\<open>new Date()\<close>, \<^verbatim>\<open>Date.now()\<close>) and every identifier
  generated by the database is an argument of the function that needs it. A thrown
  exception is a value of type \<open>thrown\<close>.
\<close>

subsection \<open>Signal evaluator (\<^verbatim>\<open>signals.server.ts\<close>)\<close>

datatype InventoryStatus = OUT_OF_STOCK | LOW | OK | UNKNOWN

definition LOW_INVENTORY_THRESHOLD :: real where
  "LOW_INVENTORY_THRESHOLD = 10"

definition computeInventoryStatus :: "real option \<Rightarrow> InventoryStatus" where
  "computeInventoryStatus totalAvailable =
     (case totalAvailable of
        None \<Rightarrow> UNKNOWN
      | Some n \<Rightarrow>
          if n \<le> 0 then OUT_OF_STOCK
          else if n \<le> LOW_INVENTORY_THRESHOLD then LOW
          else OK)"

record ConfidenceInput =
  hasStatus :: bool
  hasImage :: bool
  hasInventory :: bool
  daysSinceUpdated :: real

text \<open>
  The score is a JavaScript number; the model computes with exact reals. The four
  \<^verbatim>\<open>if (...) score += c\<close> statements are the four nested \<open>let\<close>s, in the order of the source.
\<close>

definition computeConfidence :: "ConfidenceInput \<Rightarrow> real" where
  "computeConfidence input =
     (let score = 0.5;
          score = (if hasStatus input then score + 0.15 else score);
          score = (if hasImage input then score + 0.15 else score);
          score = (if hasInventory input then score + 0.15 else score);
          score = (if daysSinceUpdated input \<ge> 0 \<and> daysSinceUpdated input < 365
                   then score + 0.05 else score)
      in min 0.95 (max 0.1 score))"

datatype ConfidenceLabel = High | Medium | Low

definition getConfidenceLabel :: "real \<Rightarrow> ConfidenceLabel" where
  "getConfidenceLabel score =
     (if score \<ge> 0.8 then High else if score \<ge> 0.55 then Medium else Low)"

text \<open>The number of signal flags that are true.\<close>

definition signalCount :: "ConfidenceInput \<Rightarrow> nat" where
  "signalCount input =
     (if hasStatus input then 1 else 0) + (if hasImage input then 1 else 0)
     + (if hasInventory input then 1 else 0)"

subsection \<open>The persistent store\<close>

type_synonym ident = string
type_synonym time = int

text \<open>
  A value caught by \<^verbatim>\<open>catch (err)\<close>: an instance of \<^verbatim>\<open>Error\<close> with its message, or
  anything else. The Prisma client rejects with instances of \<^verbatim>\<open>Error\<close>; the three
  messages below stand for the client's own texts, which are not part of this repository.
\<close>

datatype thrown = Error string | NonError

definition RecordNotFound :: thrown where
  "RecordNotFound = Error ''Record to update not found.''"

definition UniqueConstraintFailed :: thrown where
  "UniqueConstraintFailed = Error ''Unique constraint failed''"

definition ForeignKeyConstraintFailed :: thrown where
  "ForeignKeyConstraintFailed = Error ''Foreign key constraint failed''"

datatype InsightJobStatus = QUEUED | RUNNING | SUCCEEDED | FAILED

text \<open>
  Table \<^verbatim>\<open>InsightJob\<close>. Column \<^verbatim>\<open>updatedAt\<close> is \<^verbatim>\<open>NOT NULL\<close> without a default in the
  migration and no \<^verbatim>\<open>create\<close> of the source supplies it: the client stamps it on every
  write. Each write of a job below therefore sets \<open>j_updatedAt\<close> to a clock reading.
\<close>

record InsightJob =
  j_id :: ident
  j_shop :: string
  j_productId :: string
  j_runId :: "ident option"
  j_status :: InsightJobStatus
  j_attempts :: int
  j_lastError :: "string option"
  j_nextRetryAt :: "time option"
  j_createdAt :: time
  j_updatedAt :: time

text \<open>
  Table \<^verbatim>\<open>ProductInsight\<close>, with the columns that \<^verbatim>\<open>jobs.server.ts\<close> reads or writes.
  \<open>i_reasonsJson\<close> holds the list whose \<^verbatim>\<open>JSON.stringify\<close> text the column stores.
\<close>

record ProductInsight =
  i_id :: ident
  i_shop :: string
  i_productId :: string
  i_productTitle :: string
  i_status :: string
  i_recommendation :: string
  i_lastProductUpdatedAt :: time
  i_productStatus :: "string option"
  i_hasFeaturedImage :: "bool option"
  i_inventoryStatus :: "string option"
  i_inventoryAvailable :: "int option"
  i_reasonsJson :: "string list option"
  i_aiExplanation :: "string option"
  i_aiActionType :: "string option"
  i_aiGeneratedAt :: "time option"
  i_aiModel :: "string option"
  i_aiStatus :: "InsightJobStatus option"
  i_aiError :: "string option"

record Run =
  r_id :: ident
  r_shop :: string
  r_status :: string
  r_productsQueued :: int
  r_succeeded :: int
  r_failed :: int
  r_createdAt :: time
  r_completedAt :: "time option"

record WebhookEvent =
  we_webhookId :: string
  we_topic :: string
  we_shop :: string

record Session =
  se_id :: string
  se_shop :: string

record store =
  insightJob :: "InsightJob list"
  productInsight :: "ProductInsight list"
  run :: "Run list"
  webhookEvent :: "WebhookEvent list"
  session :: "Session list"

text \<open>The database after the migrations: no rows.\<close>

definition emptyStore :: store where
  "emptyStore = \<lparr>insightJob = [], productInsight = [], run = [], webhookEvent = [], session = []\<rparr>"

text \<open>JavaScript truthiness of a \<^verbatim>\<open>string | null | undefined\<close>: the empty string is falsy.\<close>

definition truthy :: "string option \<Rightarrow> bool" where
  "truthy v = (case v of None \<Rightarrow> False | Some x \<Rightarrow> x \<noteq> [])"

subsubsection \<open>Client operations\<close>

text \<open>
  \<^verbatim>\<open>update\<close> by primary key rejects when no row has the key. \<^verbatim>\<open>create\<close> rejects on a
  duplicate primary key and, for a job, on a \<^verbatim>\<open>runId\<close> that names no run (the foreign key
  \<^verbatim>\<open>InsightJob_runId_fkey\<close>). \<^verbatim>\<open>findFirst\<close> without \<^verbatim>\<open>orderBy\<close> is modelled as the first
  matching row in table order.
\<close>

definition update_insightJob ::
  "ident \<Rightarrow> (InsightJob \<Rightarrow> InsightJob) \<Rightarrow> store \<Rightarrow> thrown + store" where
  "update_insightJob k f s =
     (if k \<in> set (map j_id (insightJob s))
      then Inr (s\<lparr>insightJob := map (\<lambda>j. if j_id j = k then f j else j) (insightJob s)\<rparr>)
      else Inl RecordNotFound)"

definition update_productInsight ::
  "ident \<Rightarrow> (ProductInsight \<Rightarrow> ProductInsight) \<Rightarrow> store \<Rightarrow> thrown + store" where
  "update_productInsight k f s =
     (if k \<in> set (map i_id (productInsight s))
      then Inr (s\<lparr>productInsight :=
                    map (\<lambda>i. if i_id i = k then f i else i) (productInsight s)\<rparr>)
      else Inl RecordNotFound)"

definition update_run :: "ident \<Rightarrow> (Run \<Rightarrow> Run) \<Rightarrow> store \<Rightarrow> thrown + store" where
  "update_run k f s =
     (if k \<in> set (map r_id (run s))
      then Inr (s\<lparr>run := map (\<lambda>r. if r_id r = k then f r else r) (run s)\<rparr>)
      else Inl RecordNotFound)"

definition findUnique_insightJob :: "ident \<Rightarrow> store \<Rightarrow> InsightJob option" where
  "findUnique_insightJob k s = find (\<lambda>j. j_id j = k) (insightJob s)"

definition findUnique_productInsight :: "string \<Rightarrow> string \<Rightarrow> store \<Rightarrow> ProductInsight option" where
  "findUnique_productInsight shop productId s =
     find (\<lambda>i. i_shop i = shop \<and> i_productId i = productId) (productInsight s)"

definition create_insightJob ::
  "ident \<Rightarrow> string \<Rightarrow> string \<Rightarrow> ident option \<Rightarrow> time \<Rightarrow> store \<Rightarrow> thrown + store" where
  "create_insightJob newId shop productId runId now s =
     (if newId \<in> set (map j_id (insightJob s)) then Inl UniqueConstraintFailed
      else if (case runId of None \<Rightarrow> False | Some r \<Rightarrow> r \<notin> set (map r_id (run s)))
      then Inl ForeignKeyConstraintFailed
      else Inr (s\<lparr>insightJob := insightJob s @
                    [\<lparr>j_id = newId, j_shop = shop, j_productId = productId, j_runId = runId,
                      j_status = QUEUED, j_attempts = 0, j_lastError = None,
                      j_nextRetryAt = None, j_createdAt = now, j_updatedAt = now\<rparr>]\<rparr>))"

definition create_run :: "ident \<Rightarrow> string \<Rightarrow> int \<Rightarrow> time \<Rightarrow> store \<Rightarrow> thrown + store" where
  "create_run newId shop queued now s =
     (if newId \<in> set (map r_id (run s)) then Inl UniqueConstraintFailed
      else Inr (s\<lparr>run := run s @
                    [\<lparr>r_id = newId, r_shop = shop, r_status = ''RUNNING'',
                      r_productsQueued = queued, r_succeeded = 0, r_failed = 0,
                      r_createdAt = now, r_completedAt = None\<rparr>]\<rparr>))"

text \<open>The filter \<^verbatim>\<open>status: { in: ["QUEUED", "RUNNING"] }\<close>.\<close>

definition activeStatus :: "InsightJob \<Rightarrow> bool" where
  "activeStatus j = (j_status j = QUEUED \<or> j_status j = RUNNING)"

text \<open>
  \<^verbatim>\<open>$transaction([a, b])\<close>: the writes in order; when one rejects, nothing is committed and
  the transaction rejects with the same value.
\<close>

definition transaction2 ::
  "(store \<Rightarrow> thrown + store) \<Rightarrow> (store \<Rightarrow> thrown + store) \<Rightarrow> store \<Rightarrow> thrown + store" where
  "transaction2 a b s = (case a s of Inl e \<Rightarrow> Inl e | Inr s1 \<Rightarrow> b s1)"

text \<open>
  An asynchronous function of the source is a function of the store that yields its
  result (\<open>Inl\<close> the exception it rejects with) and the list of the stores after each of
  its committed writes, in order. These are the states that another reader of the
  database can observe while the call runs; \<open>finalStore s ws\<close> is the store when a call
  started in \<open>s\<close> has ended.
\<close>

definition finalStore :: "store \<Rightarrow> store list \<Rightarrow> store" where
  "finalStore s ws = last (s # ws)"

subsection \<open>Enqueue service (\<^verbatim>\<open>jobs.server.ts\<close>)\<close>

definition MAX_ATTEMPTS :: int where
  "MAX_ATTEMPTS = 3"

definition BACKOFF_MS :: "int list" where
  "BACKOFF_MS = [2000, 5000, 10000]"

text \<open>
  \<open>enqueueInsightJob shop productId runId force newId now\<close>: \<open>newId\<close> is the identifier the
  database generates for the created job and \<open>now\<close> the clock reading of its writes. The
  result is the returned job id (\<open>None\<close> for \<^verbatim>\<open>null\<close>). \<open>enqueue_create\<close> is the function
  from line 32 on.
\<close>

definition enqueue_create ::
  "string \<Rightarrow> string \<Rightarrow> ident option \<Rightarrow> ident \<Rightarrow> time \<Rightarrow> store
     \<Rightarrow> (thrown + ident option) \<times> store list" where
  "enqueue_create shop productId runId newId now s =
     (case create_insightJob newId shop productId runId now s of
        Inl err \<Rightarrow> (Inl err, [])
      | Inr s1 \<Rightarrow>
          (case findUnique_productInsight shop productId s1 of
             None \<Rightarrow> (Inr (Some newId), [s1])
           | Some insight \<Rightarrow>
               (case update_productInsight (i_id insight)
                       (\<lambda>i. i\<lparr>i_aiStatus := Some QUEUED, i_aiError := None\<rparr>) s1 of
                  Inl err \<Rightarrow> (Inl err, [s1])
                | Inr s2 \<Rightarrow> (Inr (Some newId), [s1, s2]))))"

definition enqueueInsightJob ::
  "string \<Rightarrow> string \<Rightarrow> ident option \<Rightarrow> bool \<Rightarrow> ident \<Rightarrow> time \<Rightarrow> store
     \<Rightarrow> (thrown + ident option) \<times> store list" where
  "enqueueInsightJob shop productId runId force newId now s =
     (case find (\<lambda>j. j_shop j = shop \<and> j_productId j = productId \<and> activeStatus j)
             (insightJob s) of
        None \<Rightarrow> enqueue_create shop productId runId newId now s
      | Some existing \<Rightarrow>
          if \<not> force then (Inr None, [])
          else
            (case update_insightJob (j_id existing)
                    (\<lambda>j. j\<lparr>j_status := FAILED,
                            j_lastError := Some ''Superseded by regenerate'',
                            j_updatedAt := now\<rparr>) s of
               Inl err \<Rightarrow> (Inl err, [])
             | Inr s1 \<Rightarrow>
                 (case enqueue_create shop productId runId newId now s1 of
                    (res, ws) \<Rightarrow> (res, s1 # ws))))"

text \<open>
  \<open>enqueueBatch\<close>: the \<^verbatim>\<open>for\<close> loop; \<open>newId k\<close> and \<open>clock k\<close> are the generated identifier
  and the clock reading of iteration \<open>k\<close>, \<open>enqueued\<close> the counter. An exception leaves the
  loop with the writes made so far.
\<close>

fun enqueueBatch_loop ::
  "nat \<Rightarrow> nat \<Rightarrow> string \<Rightarrow> string list \<Rightarrow> ident \<Rightarrow> (nat \<Rightarrow> ident) \<Rightarrow> (nat \<Rightarrow> time) \<Rightarrow> store
     \<Rightarrow> (thrown + nat) \<times> store list" where
  "enqueueBatch_loop k enqueued shop [] runId newId clock s = (Inr enqueued, [])"
| "enqueueBatch_loop k enqueued shop (productId # rest) runId newId clock s =
     (case enqueueInsightJob shop productId (Some runId) False (newId k) (clock k) s of
        (Inl err, ws) \<Rightarrow> (Inl err, ws)
      | (Inr res, ws) \<Rightarrow>
          (case enqueueBatch_loop (Suc k) (if truthy res then Suc enqueued else enqueued)
                  shop rest runId newId clock (finalStore s ws) of
             (out, ws') \<Rightarrow> (out, ws @ ws')))"

definition enqueueBatch ::
  "string \<Rightarrow> string list \<Rightarrow> ident \<Rightarrow> (nat \<Rightarrow> ident) \<Rightarrow> (nat \<Rightarrow> time) \<Rightarrow> store
     \<Rightarrow> (thrown + nat) \<times> store list" where
  "enqueueBatch shop productIds runId newId clock s =
     enqueueBatch_loop 0 0 shop productIds runId newId clock s"

subsection \<open>Claiming a job (\<^verbatim>\<open>claimNextJob\<close>)\<close>

text \<open>
  The \<^verbatim>\<open>where\<close> clause of the candidate query: status \<^verbatim>\<open>QUEUED\<close> and
  \<^verbatim>\<open>nextRetryAt\<close> null or at most \<open>now\<close>.
\<close>

definition eligible :: "time \<Rightarrow> InsightJob \<Rightarrow> bool" where
  "eligible now j =
     (j_status j = QUEUED \<and> (case j_nextRetryAt j of None \<Rightarrow> True | Some t \<Rightarrow> t \<le> now))"

text \<open>
  \<^verbatim>\<open>findFirst\<close> with \<^verbatim>\<open>orderBy: { createdAt: "asc" }\<close>: the first eligible row of the table
  sorted by creation time. The sort is stable, so among rows created at the same
  millisecond the one earlier in the table is taken.
\<close>

definition claim_findFirst :: "time \<Rightarrow> store \<Rightarrow> InsightJob option" where
  "claim_findFirst now s = find (eligible now) (sort_key j_createdAt (insightJob s))"

text \<open>
  The fenced \<^verbatim>\<open>updateMany\<close>: the rows with the candidate's id, status \<^verbatim>\<open>QUEUED\<close> and
  the candidate's \<^verbatim>\<open>updatedAt\<close>; the result is their number and the store after.
\<close>

definition claim_hit :: "InsightJob \<Rightarrow> InsightJob \<Rightarrow> bool" where
  "claim_hit candidate j =
     (j_id j = j_id candidate \<and> j_status j = QUEUED \<and> j_updatedAt j = j_updatedAt candidate)"

definition claim_updateMany :: "InsightJob \<Rightarrow> time \<Rightarrow> store \<Rightarrow> nat \<times> store" where
  "claim_updateMany candidate tUpd s =
     (length (filter (claim_hit candidate) (insightJob s)),
      s\<lparr>insightJob :=
           map (\<lambda>j. if claim_hit candidate j
                     then j\<lparr>j_status := RUNNING, j_attempts := j_attempts j + 1,
                             j_nextRetryAt := None, j_updatedAt := tUpd\<rparr>
                     else j) (insightJob s)\<rparr>)"

text \<open>
  The interactive transaction of \<^verbatim>\<open>claimNextJob\<close>, run without interference: \<open>now\<close> is the
  \<^verbatim>\<open>new Date()\<close> of line 74 and \<open>tUpd\<close> the one of line 95. It commits one state when it
  has found a candidate.
\<close>

definition claim_transaction :: "time \<Rightarrow> time \<Rightarrow> store \<Rightarrow> InsightJob option \<times> store list" where
  "claim_transaction now tUpd s =
     (case claim_findFirst now s of
        None \<Rightarrow> (None, [])
      | Some candidate \<Rightarrow>
          (case claim_updateMany candidate tUpd s of
             (count, s1) \<Rightarrow>
               if count = 0 then (None, [s1])
               else (Some (candidate\<lparr>j_attempts := j_attempts candidate + 1\<rparr>), [s1])))"

record ClaimedJob =
  cj_id :: ident
  cj_shop :: string
  cj_productId :: string
  cj_runId :: "ident option"

record ClaimedInsight =
  ci_id :: ident
  ci_productTitle :: string
  ci_status :: string
  ci_recommendation :: string
  ci_lastProductUpdatedAt :: time
  ci_productStatus :: "string option"
  ci_hasFeaturedImage :: "bool option"
  ci_inventoryStatus :: "string option"
  ci_inventoryAvailable :: "int option"

definition claimedJob :: "InsightJob \<Rightarrow> ClaimedJob" where
  "claimedJob job =
     \<lparr>cj_id = j_id job, cj_shop = j_shop job, cj_productId = j_productId job,
      cj_runId = j_runId job\<rparr>"

definition claimedInsight :: "ProductInsight \<Rightarrow> ClaimedInsight" where
  "claimedInsight insight =
     \<lparr>ci_id = i_id insight, ci_productTitle = i_productTitle insight,
      ci_status = i_status insight, ci_recommendation = i_recommendation insight,
      ci_lastProductUpdatedAt = i_lastProductUpdatedAt insight,
      ci_productStatus = i_productStatus insight,
      ci_hasFeaturedImage = i_hasFeaturedImage insight,
      ci_inventoryStatus = i_inventoryStatus insight,
      ci_inventoryAvailable = i_inventoryAvailable insight\<rparr>"

text \<open>
  The part of \<^verbatim>\<open>claimNextJob\<close> after the transaction (lines 102 to 133), for the job the
  transaction returned; \<open>tFail\<close> is the clock reading of the write of line 108.
\<close>

definition claim_finish ::
  "InsightJob \<Rightarrow> time \<Rightarrow> store
     \<Rightarrow> (thrown + (ClaimedJob \<times> ClaimedInsight) option) \<times> store list" where
  "claim_finish job tFail s =
     (case findUnique_productInsight (j_shop job) (j_productId job) s of
        None \<Rightarrow>
          (case update_insightJob (j_id job)
                  (\<lambda>j. j\<lparr>j_status := FAILED, j_lastError := Some ''ProductInsight not found'',
                          j_updatedAt := tFail\<rparr>) s of
             Inl err \<Rightarrow> (Inl err, [])
           | Inr s1 \<Rightarrow> (Inr None, [s1]))
      | Some insight \<Rightarrow>
          (case update_productInsight (i_id insight)
                  (\<lambda>i. i\<lparr>i_aiStatus := Some RUNNING, i_aiError := None\<rparr>) s of
             Inl err \<Rightarrow> (Inl err, [])
           | Inr s1 \<Rightarrow> (Inr (Some (claimedJob job, claimedInsight insight)), [s1])))"

definition claimNextJob ::
  "time \<Rightarrow> time \<Rightarrow> time \<Rightarrow> store
     \<Rightarrow> (thrown + (ClaimedJob \<times> ClaimedInsight) option) \<times> store list" where
  "claimNextJob now tUpd tFail s =
     (case claim_transaction now tUpd s of
        (None, ws) \<Rightarrow> (Inr None, ws)
      | (Some job, ws) \<Rightarrow>
          (case claim_finish job tFail (finalStore s ws) of
             (res, ws') \<Rightarrow> (res, ws @ ws')))"

subsection \<open>Processing a claimed job (\<^verbatim>\<open>processJob\<close>)\<close>

definition getBackoffMs :: "int \<Rightarrow> int" where
  "getBackoffMs attemptIndex =
     (let k = min attemptIndex (int (length BACKOFF_MS) - 1)
      in if 0 \<le> k \<and> k < int (length BACKOFF_MS) then BACKOFF_MS ! nat k else 10000)"

record AIInsightOutput =
  summary :: string
  actionType :: string
  nextSteps :: "string list"
  caveats :: "string option"

text \<open>\<^verbatim>\<open>parts.join(sep)\<close>.\<close>

fun join :: "string \<Rightarrow> string list \<Rightarrow> string" where
  "join sep [] = []"
| "join sep [x] = x"
| "join sep (x # y # ys) = x @ sep @ join sep (y # ys)"

text \<open>\<^verbatim>\<open>[output.summary, output.caveats].filter(Boolean).join(" ")\<close>.\<close>

definition aiExplanation :: "AIInsightOutput \<Rightarrow> string" where
  "aiExplanation output =
     join '' '' (filter (\<lambda>p. p \<noteq> [])
                   (summary output # (case caveats output of None \<Rightarrow> [] | Some c \<Rightarrow> [c])))"

text \<open>\<^verbatim>\<open>err instanceof Error ? err.message : "AI generation failed."\<close>.\<close>

definition errorMessage :: "thrown \<Rightarrow> string" where
  "errorMessage err = (case err of Error m \<Rightarrow> m | NonError \<Rightarrow> ''AI generation failed.'')"

text \<open>
  What the environment gives one call of \<^verbatim>\<open>processJob\<close>: the outcome of the call of the AI
  provider (\<open>Inl\<close> when it throws), and the clock readings: \<open>pe_generatedAt\<close> for line 180,
  \<open>pe_successStamp\<close> for the job write of line 187, \<open>pe_failNow\<close> for line 205 and
  \<open>pe_failStamp\<close> for the job write of line 215.
\<close>

record ProcessEnv =
  pe_ai :: "thrown + (AIInsightOutput \<times> string)"
  pe_generatedAt :: time
  pe_successStamp :: time
  pe_failNow :: time
  pe_failStamp :: time

text \<open>The transaction of lines 174 to 191.\<close>

definition success_transaction ::
  "ident \<Rightarrow> ident \<Rightarrow> AIInsightOutput \<Rightarrow> string \<Rightarrow> ProcessEnv \<Rightarrow> store \<Rightarrow> thrown + store" where
  "success_transaction jobId insightId output model env =
     transaction2
       (update_productInsight insightId
          (\<lambda>i. i\<lparr>i_aiExplanation := Some (aiExplanation output),
                  i_aiActionType := Some (actionType output),
                  i_aiGeneratedAt := Some (pe_generatedAt env),
                  i_aiModel := Some model,
                  i_aiStatus := Some SUCCEEDED,
                  i_aiError := None,
                  i_reasonsJson := (if length (nextSteps output) > 0
                                    then Some (nextSteps output) else None)\<rparr>))
       (update_insightJob jobId
          (\<lambda>j. j\<lparr>j_status := SUCCEEDED, j_lastError := None,
                  j_updatedAt := pe_successStamp env\<rparr>))"

text \<open>The transaction of lines 207 to 223.\<close>

definition failure_transaction ::
  "ident \<Rightarrow> ident \<Rightarrow> bool \<Rightarrow> string \<Rightarrow> time option \<Rightarrow> ProcessEnv \<Rightarrow> store \<Rightarrow> thrown + store" where
  "failure_transaction jobId insightId willRetry message nextRetryAt env =
     transaction2
       (update_productInsight insightId
          (\<lambda>i. i\<lparr>i_aiStatus := Some (if willRetry then QUEUED else FAILED),
                  i_aiError := (if willRetry then None else Some (take 500 message))\<rparr>))
       (update_insightJob jobId
          (\<lambda>j. j\<lparr>j_status := (if willRetry then QUEUED else FAILED),
                  j_lastError := Some (take 500 message),
                  j_nextRetryAt := nextRetryAt,
                  j_updatedAt := pe_failStamp env\<rparr>))"

text \<open>
  \<open>processJob_try\<close> is the \<^verbatim>\<open>try\<close> block and \<open>processJob_catch\<close> the \<^verbatim>\<open>catch\<close> block; each
  yields the exception that leaves the block, if any, and its committed writes.
\<close>

definition processJob_try ::
  "ident \<Rightarrow> ClaimedInsight \<Rightarrow> ident option \<Rightarrow> ProcessEnv \<Rightarrow> store \<Rightarrow> thrown option \<times> store list" where
  "processJob_try jobId insight runId env s =
     (case pe_ai env of
        Inl err \<Rightarrow> (Some err, [])
      | Inr (output, model) \<Rightarrow>
          (case success_transaction jobId (ci_id insight) output model env s of
             Inl err \<Rightarrow> (Some err, [])
           | Inr s1 \<Rightarrow>
               (case runId of
                  None \<Rightarrow> (None, [s1])
                | Some r \<Rightarrow>
                    if r = [] then (None, [s1])
                    else (case update_run r (\<lambda>x. x\<lparr>r_succeeded := r_succeeded x + 1\<rparr>) s1 of
                            Inl err \<Rightarrow> (Some err, [s1])
                          | Inr s2 \<Rightarrow> (None, [s1, s2])))))"

definition processJob_catch ::
  "thrown \<Rightarrow> ident \<Rightarrow> ClaimedInsight \<Rightarrow> ident option \<Rightarrow> ProcessEnv \<Rightarrow> store
     \<Rightarrow> thrown option \<times> store list" where
  "processJob_catch err jobId insight runId env s =
     (let message = errorMessage err;
          job = findUnique_insightJob jobId s;
          attempts = (case job of None \<Rightarrow> 1 | Some j \<Rightarrow> j_attempts j);
          willRetry = (attempts < MAX_ATTEMPTS);
          backoffMs = getBackoffMs (attempts - 1);
          nextRetryAt = (if willRetry then Some (pe_failNow env + backoffMs) else None)
      in case failure_transaction jobId (ci_id insight) willRetry message nextRetryAt env s of
           Inl e \<Rightarrow> (Some e, [])
         | Inr s1 \<Rightarrow>
             (case runId of
                None \<Rightarrow> (None, [s1])
              | Some r \<Rightarrow>
                  if r = [] then (None, [s1])
                  else if attempts \<ge> MAX_ATTEMPTS
                  then (case update_run r (\<lambda>x. x\<lparr>r_failed := r_failed x + 1\<rparr>) s1 of
                          Inl e \<Rightarrow> (Some e, [s1])
                        | Inr s2 \<Rightarrow> (None, [s1, s2]))
                  else (None, [s1])))"

definition processJob ::
  "ident \<Rightarrow> ClaimedInsight \<Rightarrow> string \<Rightarrow> string \<Rightarrow> ident option \<Rightarrow> ProcessEnv \<Rightarrow> store
     \<Rightarrow> thrown option \<times> store list" where
  "processJob jobId insight shop productId runId env s =
     (case processJob_try jobId insight runId env s of
        (None, ws) \<Rightarrow> (None, ws)
      | (Some err, ws) \<Rightarrow>
          (case processJob_catch err jobId insight runId env (finalStore s ws) of
             (res, ws') \<Rightarrow> (res, ws @ ws')))"

subsection \<open>What an observer of the database sees of a successful job\<close>

text \<open>
  In a store: the job update of the success path is applied; the insight update is
  applied; the \<open>succeeded\<close> counter of run \<open>r\<close> is one more than in the store \<open>s\<close> the call
  started in.
\<close>

definition jobSucceeded :: "ident \<Rightarrow> store \<Rightarrow> bool" where
  "jobSucceeded jobId t =
     (case findUnique_insightJob jobId t of
        None \<Rightarrow> False
      | Some j \<Rightarrow> j_status j = SUCCEEDED \<and> j_lastError j = None)"

definition insightSucceeded :: "ident \<Rightarrow> store \<Rightarrow> bool" where
  "insightSucceeded insightId t =
     (case find (\<lambda>i. i_id i = insightId) (productInsight t) of
        None \<Rightarrow> False
      | Some i \<Rightarrow> i_aiStatus i = Some SUCCEEDED \<and> i_aiError i = None)"

definition runCounted :: "ident \<Rightarrow> store \<Rightarrow> store \<Rightarrow> bool" where
  "runCounted r s t =
     (case find (\<lambda>x. r_id x = r) (run s) of
        None \<Rightarrow> False
      | Some a \<Rightarrow>
          (case find (\<lambda>x. r_id x = r) (run t) of
             None \<Rightarrow> False
           | Some b \<Rightarrow> r_succeeded b = r_succeeded a + 1))"

text \<open>
  The three updates as one atomic unit: every state committed by the call has all three
  applied or none of them.
\<close>

definition success_atomic :: "ident \<Rightarrow> ident \<Rightarrow> ident \<Rightarrow> store \<Rightarrow> store list \<Rightarrow> bool" where
  "success_atomic jobId insightId r s ws =
     list_all (\<lambda>t. jobSucceeded jobId t = insightSucceeded insightId t
                   \<and> jobSucceeded jobId t = runCounted r s t) ws"

subsection \<open>The worker (\<^verbatim>\<open>scripts/worker.ts\<close>)\<close>

text \<open>The clock readings of one \<^verbatim>\<open>tick\<close> and what its \<^verbatim>\<open>processJob\<close> gets.\<close>

record TickEnv =
  te_now :: time
  te_tUpd :: time
  te_tFail :: time
  te_process :: ProcessEnv

definition tick :: "TickEnv \<Rightarrow> store \<Rightarrow> (thrown + bool) \<times> store list" where
  "tick env s =
     (case claimNextJob (te_now env) (te_tUpd env) (te_tFail env) s of
        (Inl err, ws) \<Rightarrow> (Inl err, ws)
      | (Inr None, ws) \<Rightarrow> (Inr False, ws)
      | (Inr (Some (job, insight)), ws) \<Rightarrow>
          (case processJob (cj_id job) insight (cj_shop job) (cj_productId job) (cj_runId job)
                  (te_process env) (finalStore s ws) of
             (None, ws') \<Rightarrow> (Inr True, ws @ ws')
           | (Some err, ws') \<Rightarrow> (Inl err, ws @ ws')))"

text \<open>
  The count of \<^verbatim>\<open>updateRunCompletion\<close>: the jobs of the run that are \<^verbatim>\<open>QUEUED\<close> or
  \<^verbatim>\<open>RUNNING\<close>.
\<close>

definition pendingJobs :: "ident \<Rightarrow> store \<Rightarrow> nat" where
  "pendingJobs runId s =
     length (filter (\<lambda>j. j_runId j = Some runId \<and> activeStatus j) (insightJob s))"

text \<open>
  The loop of \<^verbatim>\<open>updateRunCompletion\<close> over the runs that \<^verbatim>\<open>findMany\<close> returned; \<open>clock k\<close>
  is the \<^verbatim>\<open>new Date()\<close> of iteration \<open>k\<close>.
\<close>

fun updateRunCompletion_loop ::
  "nat \<Rightarrow> Run list \<Rightarrow> (nat \<Rightarrow> time) \<Rightarrow> store \<Rightarrow> (thrown + unit) \<times> store list" where
  "updateRunCompletion_loop k [] clock s = (Inr (), [])"
| "updateRunCompletion_loop k (r # rs) clock s =
     (if pendingJobs (r_id r) s = 0
      then (case update_run (r_id r)
                    (\<lambda>x. x\<lparr>r_status := ''COMPLETED'', r_completedAt := Some (clock k)\<rparr>) s of
              Inl err \<Rightarrow> (Inl err, [])
            | Inr s1 \<Rightarrow>
                (case updateRunCompletion_loop (Suc k) rs clock s1 of
                   (out, ws) \<Rightarrow> (out, s1 # ws)))
      else updateRunCompletion_loop (Suc k) rs clock s)"

definition updateRunCompletion :: "(nat \<Rightarrow> time) \<Rightarrow> store \<Rightarrow> (thrown + unit) \<times> store list" where
  "updateRunCompletion clock s =
     updateRunCompletion_loop 0 (filter (\<lambda>r. r_status r = ''RUNNING'') (run s)) clock s"

subsection \<open>The enqueue requests (\<^verbatim>\<open>action\<close> of \<^verbatim>\<open>app.insights.tsx\<close>)\<close>

definition BATCH_MAX :: nat where
  "BATCH_MAX = 10"

text \<open>\<^verbatim>\<open>text.split(",")\<close>: the pieces between the separators; never the empty list.\<close>

fun splitOn :: "char \<Rightarrow> string \<Rightarrow> string list" where
  "splitOn c [] = [[]]"
| "splitOn c (x # xs) =
     (if x = c then [] # splitOn c xs
      else (case splitOn c xs of [] \<Rightarrow> [[x]] | w # ws \<Rightarrow> (x # w) # ws))"

datatype ActionResult =
  BatchOk ident nat
| SingleOk string ident
| ActionError string

text \<open>
  What the environment gives one request: the identifier and creation time of the run,
  and the identifiers and clock readings of the jobs.
\<close>

record ActionEnv =
  ae_runId :: ident
  ae_runNow :: time
  ae_newId :: "nat \<Rightarrow> ident"
  ae_clock :: "nat \<Rightarrow> time"

text \<open>
  \<open>insights_action shop intent productIdsRaw productId env\<close>: \<open>shop\<close> is the shop of the
  authenticated session; the other three are the form fields, \<open>None\<close> when a field is
  absent or not a string.
\<close>

definition insights_action ::
  "string \<Rightarrow> string option \<Rightarrow> string option \<Rightarrow> string option \<Rightarrow> ActionEnv \<Rightarrow> store
     \<Rightarrow> (thrown + ActionResult) \<times> store list" where
  "insights_action shop intent productIdsRaw productId env s =
     (if intent = Some ''batch'' then
        (let productIds =
               (case productIdsRaw of
                  None \<Rightarrow> []
                | Some raw \<Rightarrow> take BATCH_MAX (filter (\<lambda>p. p \<noteq> []) (splitOn CHR '','' raw)))
         in if length productIds = 0
            then (Inr (ActionError ''No products selected for batch.''), [])
            else
              (case create_run (ae_runId env) shop (int (length productIds)) (ae_runNow env) s of
                 Inl err \<Rightarrow> (Inl err, [])
               | Inr s1 \<Rightarrow>
                   (case enqueueBatch shop productIds (ae_runId env) (ae_newId env)
                           (ae_clock env) s1 of
                      (Inl err, ws) \<Rightarrow> (Inl err, s1 # ws)
                    | (Inr enqueued, ws) \<Rightarrow>
                        (Inr (BatchOk (ae_runId env) enqueued), s1 # ws))))
      else
        (case productId of
           None \<Rightarrow> (Inr (ActionError ''Missing productId or intent.''), [])
         | Some pid \<Rightarrow>
             if pid = [] \<or> (intent \<noteq> Some ''generate'' \<and> intent \<noteq> Some ''regenerate'')
             then (Inr (ActionError ''Missing productId or intent.''), [])
             else
               (case findUnique_productInsight shop pid s of
                  None \<Rightarrow> (Inr (ActionError ''Product insight not found.''), [])
                | Some insight \<Rightarrow>
                    (case enqueueInsightJob shop pid None (intent = Some ''regenerate'')
                            (ae_newId env 0) (ae_clock env 0) s of
                       (Inl err, ws) \<Rightarrow> (Inl err, ws)
                     | (Inr None, ws) \<Rightarrow>
                         (Inr (ActionError ''Job already queued or running.''), ws)
                     | (Inr (Some jobId), ws) \<Rightarrow>
                         if jobId = []
                         then (Inr (ActionError ''Job already queued or running.''), ws)
                         else (Inr (SingleOk pid jobId), ws)))))"

subsection \<open>The uninstall webhook (\<^verbatim>\<open>webhooks.app.uninstalled.tsx\<close>)\<close>

definition create_webhookEvent :: "string \<Rightarrow> string \<Rightarrow> string \<Rightarrow> store \<Rightarrow> thrown + store" where
  "create_webhookEvent wid topic shop s =
     (if wid \<in> set (map we_webhookId (webhookEvent s)) then Inl UniqueConstraintFailed
      else Inr (s\<lparr>webhookEvent := webhookEvent s @
                    [\<lparr>we_webhookId = wid, we_topic = topic, we_shop = shop\<rparr>]\<rparr>))"

text \<open>
  The four \<^verbatim>\<open>deleteMany\<close> of the transaction of lines 28 to 33, in order. Deleting a run
  sets the \<^verbatim>\<open>runId\<close> of the jobs that still refer to it to null (\<^verbatim>\<open>ON DELETE SET NULL\<close>).
\<close>

definition deleteMany_insightJob :: "string \<Rightarrow> store \<Rightarrow> store" where
  "deleteMany_insightJob shop s = s\<lparr>insightJob := filter (\<lambda>j. j_shop j \<noteq> shop) (insightJob s)\<rparr>"

definition deleteMany_run :: "string \<Rightarrow> store \<Rightarrow> store" where
  "deleteMany_run shop s =
     s\<lparr>run := filter (\<lambda>r. r_shop r \<noteq> shop) (run s),
       insightJob :=
         map (\<lambda>j. case j_runId j of
                     None \<Rightarrow> j
                   | Some k \<Rightarrow>
                       if k \<in> set (map r_id (filter (\<lambda>r. r_shop r = shop) (run s)))
                       then j\<lparr>j_runId := None\<rparr> else j)
             (insightJob s)\<rparr>"

definition deleteMany_productInsight :: "string \<Rightarrow> store \<Rightarrow> store" where
  "deleteMany_productInsight shop s =
     s\<lparr>productInsight := filter (\<lambda>i. i_shop i \<noteq> shop) (productInsight s)\<rparr>"

definition deleteMany_session :: "string \<Rightarrow> store \<Rightarrow> store" where
  "deleteMany_session shop s = s\<lparr>session := filter (\<lambda>x. se_shop x \<noteq> shop) (session s)\<rparr>"

definition purge :: "string \<Rightarrow> store \<Rightarrow> store" where
  "purge shop s =
     deleteMany_session shop
       (deleteMany_productInsight shop (deleteMany_run shop (deleteMany_insightJob shop s)))"

text \<open>
  The three \<^verbatim>\<open>return new Response(null, { status: 200 })\<close> of the handler answer alike;
  the result records which of them answered: line 12 (\<open>AlreadySeen\<close>), line 24
  (\<open>InsertConflict\<close>) or line 35, after the purge (\<open>Purged\<close>).
\<close>

datatype Ack = AlreadySeen | InsertConflict | Purged

definition responseStatus :: "Ack \<Rightarrow> nat" where
  "responseStatus a = 200"

text \<open>
  \<open>uninstalled_action webhookId auth\<close>: \<open>webhookId\<close> is the value of the header
  \<^verbatim>\<open>x-shopify-webhook-id\<close> (\<open>None\<close> when absent) and \<open>auth\<close> what \<^verbatim>\<open>authenticate.webhook\<close>
  yields: the shop and the topic, or the value it throws.
\<close>

definition uninstalled_action ::
  "string option \<Rightarrow> thrown + (string \<times> string) \<Rightarrow> store \<Rightarrow> (thrown + Ack) \<times> store list" where
  "uninstalled_action webhookId auth s =
     (if truthy webhookId \<and> find (\<lambda>e. Some (we_webhookId e) = webhookId) (webhookEvent s) \<noteq> None
      then (Inr AlreadySeen, [])
      else
        (case auth of
           Inl err \<Rightarrow> (Inl err, [])
         | Inr (shop, topic) \<Rightarrow>
             (case webhookId of
                None \<Rightarrow> (Inr Purged, [purge shop s])
              | Some wid \<Rightarrow>
                  if wid = [] then (Inr Purged, [purge shop s])
                  else
                    (case create_webhookEvent wid topic shop s of
                       Inl err \<Rightarrow> (Inr InsertConflict, [])
                     | Inr s1 \<Rightarrow> (Inr Purged, [s1, purge shop s1])))))"

subsubsection \<open>The handler, one awaited operation at a time\<close>

text \<open>
  Where a run of the handler stands: before the look-up of line 8; after it, before
  \<^verbatim>\<open>authenticate.webhook\<close>; authenticated, before the \<^verbatim>\<open>create\<close> of line 20; before the
  purge of line 28; answered; rejected. \<open>hstep\<close> is the next awaited operation of a run for
  the header \<open>webhookId\<close> and authentication outcome \<open>auth\<close>, on the store as it is when the
  operation executes; a finished run has no step.
\<close>

datatype hpc =
  H_Start
| H_Checked
| H_Authed string string
| H_Recorded string
| H_Done Ack
| H_Threw thrown

definition hstep ::
  "string option \<Rightarrow> thrown + (string \<times> string) \<Rightarrow> hpc \<Rightarrow> store \<Rightarrow> (hpc \<times> store) option" where
  "hstep webhookId auth pc s =
     (case pc of
        H_Start \<Rightarrow>
          Some (if truthy webhookId
                   \<and> find (\<lambda>e. Some (we_webhookId e) = webhookId) (webhookEvent s) \<noteq> None
                then H_Done AlreadySeen else H_Checked, s)
      | H_Checked \<Rightarrow>
          Some (case auth of Inl err \<Rightarrow> H_Threw err | Inr (shop, topic) \<Rightarrow> H_Authed shop topic, s)
      | H_Authed shop topic \<Rightarrow>
          (case webhookId of
             None \<Rightarrow> Some (H_Recorded shop, s)
           | Some wid \<Rightarrow>
               if wid = [] then Some (H_Recorded shop, s)
               else (case create_webhookEvent wid topic shop s of
                       Inl err \<Rightarrow> Some (H_Done InsertConflict, s)
                     | Inr s1 \<Rightarrow> Some (H_Recorded shop, s1)))
      | H_Recorded shop \<Rightarrow> Some (H_Done Purged, purge shop s)
      | H_Done a \<Rightarrow> None
      | H_Threw err \<Rightarrow> None)"

text \<open>A run on its own: at most \<open>n\<close> steps, one after the other.\<close>

fun hrun ::
  "nat \<Rightarrow> string option \<Rightarrow> thrown + (string \<times> string) \<Rightarrow> hpc \<Rightarrow> store \<Rightarrow> hpc \<times> store" where
  "hrun 0 webhookId auth pc s = (pc, s)"
| "hrun (Suc n) webhookId auth pc s =
     (case hstep webhookId auth pc s of
        None \<Rightarrow> (pc, s)
      | Some (pc', s') \<Rightarrow> hrun n webhookId auth pc' s')"

text \<open>
  Two deliveries with the same header, handled concurrently: a configuration is the store
  and where each of the two runs stands; a step of the pair is a step of one of them.
\<close>

inductive dstep ::
  "string option \<Rightarrow> thrown + (string \<times> string) \<Rightarrow> thrown + (string \<times> string)
     \<Rightarrow> store \<times> hpc \<times> hpc \<Rightarrow> store \<times> hpc \<times> hpc \<Rightarrow> bool"
  for webhookId auth1 auth2 where
  first: "hstep webhookId auth1 p1 s = Some (p1', s')
            \<Longrightarrow> dstep webhookId auth1 auth2 (s, p1, p2) (s', p1', p2)"
| second: "hstep webhookId auth2 p2 s = Some (p2', s')
            \<Longrightarrow> dstep webhookId auth1 auth2 (s, p1, p2) (s', p1, p2')"

text \<open>The number of the two runs that have passed the \<^verbatim>\<open>create\<close> and go on to the purge, or have purged.\<close>

definition purging :: "hpc \<Rightarrow> nat" where
  "purging pc = (case pc of H_Recorded shop \<Rightarrow> 1 | H_Done Purged \<Rightarrow> 1 | _ \<Rightarrow> 0)"

text \<open>
  What holds of a pair of runs for the delivery id \<open>wid\<close>: neither run has rejected; a run
  has passed the \<^verbatim>\<open>create\<close> exactly when the event row exists, and then only one has; a run
  that answered without purging saw the row or the conflict.
\<close>

definition recorded :: "string \<Rightarrow> store \<Rightarrow> bool" where
  "recorded wid s = (wid \<in> set (map we_webhookId (webhookEvent s)))"

definition skipped :: "hpc \<Rightarrow> bool" where
  "skipped pc = (pc = H_Done AlreadySeen \<or> pc = H_Done InsertConflict)"

definition rejected :: "hpc \<Rightarrow> bool" where
  "rejected pc = (case pc of H_Threw err \<Rightarrow> True | _ \<Rightarrow> False)"

definition pair_inv :: "string \<Rightarrow> store \<times> hpc \<times> hpc \<Rightarrow> bool" where
  "pair_inv wid cfg =
     (case cfg of
        (s, p1, p2) \<Rightarrow>
          \<not> rejected p1 \<and> \<not> rejected p2
          \<and> purging p1 + purging p2 = (if recorded wid s then 1 else 0)
          \<and> (skipped p1 \<longrightarrow> recorded wid s) \<and> (skipped p2 \<longrightarrow> recorded wid s))"

text \<open>The number of awaited operations a run has still to make, at most.\<close>

definition hrank :: "hpc \<Rightarrow> nat" where
  "hrank pc =
     (case pc of
        H_Start \<Rightarrow> 4 | H_Checked \<Rightarrow> 3 | H_Authed shop topic \<Rightarrow> 2 | H_Recorded shop \<Rightarrow> 1
      | H_Done a \<Rightarrow> 0 | H_Threw err \<Rightarrow> 0)"

subsection \<open>Concurrent callers of \<^verbatim>\<open>claimNextJob\<close>\<close>

text \<open>
  Where a call of \<^verbatim>\<open>claimNextJob\<close> stands: before the candidate query; holding the
  candidate it read, before the fenced \<^verbatim>\<open>updateMany\<close>; holding the job the transaction
  returned, before the insight look-up; after the look-up (no insight, or the insight),
  before the write that follows; returned; rejected. \<open>cstep t\<close> is the next awaited
  operation of a call, executed on the store as it is at that moment, \<open>t\<close> being the clock
  reading the operation uses. The writes of other callers may fall between the candidate
  query and the \<^verbatim>\<open>updateMany\<close> of a call: this is the situation the fence is written for.
\<close>

datatype cpc =
  C_Start
| C_Selected InsightJob
| C_Claimed InsightJob
| C_Missing InsightJob
| C_Found InsightJob ProductInsight
| C_Done "(ClaimedJob \<times> ClaimedInsight) option"
| C_Threw thrown

definition cstep :: "time \<Rightarrow> cpc \<Rightarrow> store \<Rightarrow> (cpc \<times> store) option" where
  "cstep t pc s =
     (case pc of
        C_Start \<Rightarrow>
          Some (case claim_findFirst t s of
                  None \<Rightarrow> C_Done None
                | Some candidate \<Rightarrow> C_Selected candidate, s)
      | C_Selected candidate \<Rightarrow>
          (case claim_updateMany candidate t s of
             (count, s1) \<Rightarrow>
               Some (if count = 0 then C_Done None
                     else C_Claimed (candidate\<lparr>j_attempts := j_attempts candidate + 1\<rparr>), s1))
      | C_Claimed job \<Rightarrow>
          Some (case findUnique_productInsight (j_shop job) (j_productId job) s of
                  None \<Rightarrow> C_Missing job
                | Some insight \<Rightarrow> C_Found job insight, s)
      | C_Missing job \<Rightarrow>
          Some (case update_insightJob (j_id job)
                       (\<lambda>j. j\<lparr>j_status := FAILED,
                               j_lastError := Some ''ProductInsight not found'',
                               j_updatedAt := t\<rparr>) s of
                  Inl err \<Rightarrow> (C_Threw err, s)
                | Inr s1 \<Rightarrow> (C_Done None, s1))
      | C_Found job insight \<Rightarrow>
          Some (case update_productInsight (i_id insight)
                       (\<lambda>i. i\<lparr>i_aiStatus := Some RUNNING, i_aiError := None\<rparr>) s of
                  Inl err \<Rightarrow> (C_Threw err, s)
                | Inr s1 \<Rightarrow> (C_Done (Some (claimedJob job, claimedInsight insight)), s1))
      | C_Done res \<Rightarrow> None
      | C_Threw err \<Rightarrow> None)"

text \<open>
  A call on its own, with the clock readings of \<open>claimNextJob now tUpd tFail\<close>: at most \<open>n\<close>
  operations, one after the other.
\<close>

definition cclock :: "time \<Rightarrow> time \<Rightarrow> time \<Rightarrow> cpc \<Rightarrow> time" where
  "cclock now tUpd tFail pc =
     (case pc of C_Start \<Rightarrow> now | C_Selected candidate \<Rightarrow> tUpd | _ \<Rightarrow> tFail)"

fun crun :: "nat \<Rightarrow> time \<Rightarrow> time \<Rightarrow> time \<Rightarrow> cpc \<Rightarrow> store \<Rightarrow> cpc \<times> store" where
  "crun 0 now tUpd tFail pc s = (pc, s)"
| "crun (Suc n) now tUpd tFail pc s =
     (case cstep (cclock now tUpd tFail pc) pc s of
        None \<Rightarrow> (pc, s)
      | Some (pc', s') \<Rightarrow> crun n now tUpd tFail pc' s')"










subsection \<open>The system: requests, worker and webhook on one store\<close>








subsection \<open>Sample data\<close>

text \<open>
  A store with one run of one product, its job (claimed, at its third attempt) and the
  product's insight; and what the environment gives a call of \<^verbatim>\<open>processJob\<close> when the AI
  call throws and when it succeeds.
\<close>

definition ex_job :: InsightJob where
  "ex_job = \<lparr>j_id = ''job1'', j_shop = ''shopA'', j_productId = ''p1'', j_runId = Some ''run1'',
              j_status = RUNNING, j_attempts = 3, j_lastError = None, j_nextRetryAt = None,
              j_createdAt = 1000, j_updatedAt = 2000\<rparr>"

definition ex_insight :: ProductInsight where
  "ex_insight = \<lparr>i_id = ''ins1'', i_shop = ''shopA'', i_productId = ''p1'',
                  i_productTitle = ''Mug'', i_status = ''NEGLECTED'',
                  i_recommendation = ''Review'', i_lastProductUpdatedAt = 0,
                  i_productStatus = None, i_hasFeaturedImage = None,
                  i_inventoryStatus = None, i_inventoryAvailable = None,
                  i_reasonsJson = None, i_aiExplanation = None, i_aiActionType = None,
                  i_aiGeneratedAt = None, i_aiModel = None, i_aiStatus = Some RUNNING,
                  i_aiError = None\<rparr>"

definition ex_run :: Run where
  "ex_run = \<lparr>r_id = ''run1'', r_shop = ''shopA'', r_status = ''RUNNING'', r_productsQueued = 1,
              r_succeeded = 0, r_failed = 0, r_createdAt = 900, r_completedAt = None\<rparr>"

definition ex_store :: store where
  "ex_store = \<lparr>insightJob = [ex_job], productInsight = [ex_insight], run = [ex_run],
                webhookEvent = [], session = []\<rparr>"


definition ex_env_fail :: ProcessEnv where
  "ex_env_fail = \<lparr>pe_ai = Inl (Error ''timeout''), pe_generatedAt = 3000,
                   pe_successStamp = 3001, pe_failNow = 3002, pe_failStamp = 3003\<rparr>"

definition ex_output :: AIInsightOutput where
  "ex_output = \<lparr>summary = ''Stale listing.'', actionType = ''COPY'',
                 nextSteps = [''Refresh the description''], caveats = None\<rparr>"

definition ex_env_ok :: ProcessEnv where
  "ex_env_ok = \<lparr>pe_ai = Inr (ex_output, ''gpt-4o-mini''), pe_generatedAt = 3000,
                 pe_successStamp = 3001, pe_failNow = 3002, pe_failStamp = 3003\<rparr>"

text \<open>
  A batch request for one product that has no insight row, on the empty store; then one
  tick of the worker; then one pass of \<^verbatim>\<open>updateRunCompletion\<close>.
\<close>

definition ex_action_env :: ActionEnv where
  "ex_action_env = \<lparr>ae_runId = ''run1'', ae_runNow = 100, ae_newId = (\<lambda>k. ''job1''),
                     ae_clock = (\<lambda>k. 101)\<rparr>"

definition ex_tick_env :: TickEnv where
  "ex_tick_env = \<lparr>te_now = 200, te_tUpd = 201, te_tFail = 202, te_process = ex_env_ok\<rparr>"

definition ex_after_batch :: store where
  "ex_after_batch =
     finalStore emptyStore
       (snd (insights_action ''shopA'' (Some ''batch'') (Some ''p1'') None ex_action_env
               emptyStore))"

definition ex_after_tick :: store where
  "ex_after_tick = finalStore ex_after_batch (snd (tick ex_tick_env ex_after_batch))"

definition ex_after_completion :: store where
  "ex_after_completion =
     finalStore ex_after_tick (snd (updateRunCompletion (\<lambda>k. 300) ex_after_tick))"





subsection \<open>Facts about the client operations\<close>

lemma find_id_mem:
  "find (\<lambda>x. f x = k) xs = Some y \<Longrightarrow> k \<in> set (map f xs) \<and> f y = k \<and> y \<in> set xs"
  by (induction xs) (auto split: if_splits)

lemma find_id_None: "find (\<lambda>x. f x = k) xs = None \<longleftrightarrow> k \<notin> set (map f xs)"
  by (induction xs) auto

lemma find_map_update:
  assumes "find (\<lambda>x. f x = k) xs = Some y" and "f (g y) = k"
  shows "find (\<lambda>x. f x = k) (map (\<lambda>x. if f x = k then g x else x) xs) = Some (g y)"
  using assms by (induction xs) (auto split: if_splits)

lemma find_map_other:
  assumes "k' \<noteq> k" and "\<And>x. f x = k \<Longrightarrow> f (g x) = k"
  shows "find (\<lambda>x. f x = k') (map (\<lambda>x. if f x = k then g x else x) xs)
           = find (\<lambda>x. f x = k') xs"
  using assms by (induction xs) auto

lemma map_update_ids:
  assumes "\<And>x. f (g x) = f x"
  shows "map f (map (\<lambda>x. if P x then g x else x) xs) = map f xs"
  using assms by (induction xs) auto

lemma finalStore_simps [simp]:
  "finalStore s [] = s"
  "finalStore s (ws @ [t]) = t"
  "finalStore s [t] = t"
  "finalStore s [t, u] = u"
  "finalStore s (t # ws) = finalStore t ws"
  by (simp_all add: finalStore_def)

lemma finalStore_append: "finalStore s (ws @ ws') = finalStore (finalStore s ws) ws'"
  by (induction ws arbitrary: s) simp_all

subsection \<open>The sample scenario, evaluated\<close>

lemma ex_after_batch_eq:
  "ex_after_batch =
      \<lparr>insightJob =
         [\<lparr>j_id = ''job1'', j_shop = ''shopA'', j_productId = ''p1'', j_runId = Some ''run1'',
           j_status = QUEUED, j_attempts = 0, j_lastError = None, j_nextRetryAt = None,
           j_createdAt = 101, j_updatedAt = 101\<rparr>],
       productInsight = [],
       run = [\<lparr>r_id = ''run1'', r_shop = ''shopA'', r_status = ''RUNNING'',
               r_productsQueued = 1, r_succeeded = 0, r_failed = 0, r_createdAt = 100,
               r_completedAt = None\<rparr>],
       webhookEvent = [], session = []\<rparr>"
  by (simp add: ex_after_batch_def insights_action_def emptyStore_def ex_action_env_def
      BATCH_MAX_def create_run_def enqueueBatch_def enqueueInsightJob_def enqueue_create_def
      create_insightJob_def findUnique_productInsight_def truthy_def)

lemma ex_after_batch_candidate:
  "claim_findFirst 200 ex_after_batch =
     Some \<lparr>j_id = ''job1'', j_shop = ''shopA'', j_productId = ''p1'', j_runId = Some ''run1'',
           j_status = QUEUED, j_attempts = 0, j_lastError = None, j_nextRetryAt = None,
           j_createdAt = 101, j_updatedAt = 101\<rparr>"
  by (simp add: ex_after_batch_eq claim_findFirst_def eligible_def)


subsection \<open>Properties of the signal evaluator\<close>

lemma computeConfidence_count:
  "computeConfidence input =
     min 0.95 (max 0.1 (0.5 + 0.15 * real (signalCount input)
       + (if daysSinceUpdated input \<ge> 0 \<and> daysSinceUpdated input < 365 then 0.05 else 0)))"
  by (simp add: computeConfidence_def signalCount_def Let_def)

text \<open>
  Claim C8. For every input, \<open>computeConfidence\<close> lies in \<open>[0.10, 0.95]\<close>; and it is
  monotonic non-decreasing in the number of true signal flags: with the freshness age
  held fixed, an input with at least as many true flags scores at least as much, and in
  particular turning one flag from false to true (the others fixed) never lowers the score.
\<close>

theorem C8_computeConfidence_range_mono:
  "0.10 \<le> computeConfidence i \<and> computeConfidence i \<le> 0.95
   \<and> (daysSinceUpdated i' = daysSinceUpdated i \<and> signalCount i \<le> signalCount i'
        \<longrightarrow> computeConfidence i \<le> computeConfidence i')
   \<and> (daysSinceUpdated i' = daysSinceUpdated i
        \<and> (hasStatus i \<longrightarrow> hasStatus i') \<and> (hasImage i \<longrightarrow> hasImage i')
        \<and> (hasInventory i \<longrightarrow> hasInventory i')
        \<longrightarrow> computeConfidence i \<le> computeConfidence i')"
proof -
  have range: "0.10 \<le> computeConfidence i \<and> computeConfidence i \<le> 0.95"
    by (simp add: computeConfidence_def Let_def)
  have mono: "computeConfidence a \<le> computeConfidence b"
    if "daysSinceUpdated b = daysSinceUpdated a" "signalCount a \<le> signalCount b" for a b
  proof -
    define bonus :: real where
      "bonus = (if daysSinceUpdated a \<ge> 0 \<and> daysSinceUpdated a < 365 then 0.05 else 0)"
    have "0.15 * real (signalCount a) \<le> 0.15 * real (signalCount b)"
      using that(2) by simp
    then have "0.5 + 0.15 * real (signalCount a) + bonus
                 \<le> 0.5 + 0.15 * real (signalCount b) + bonus"
      by simp
    then have "min 0.95 (max 0.1 (0.5 + 0.15 * real (signalCount a) + bonus))
                 \<le> min (0.95::real) (max 0.1 (0.5 + 0.15 * real (signalCount b) + bonus))"
      by (intro min.mono max.mono order_refl)
    then show ?thesis
      unfolding computeConfidence_count that(1) bonus_def .
  qed
  have flags: "signalCount a \<le> signalCount b"
    if "hasStatus a \<longrightarrow> hasStatus b" "hasImage a \<longrightarrow> hasImage b"
       "hasInventory a \<longrightarrow> hasInventory b" for a b
    using that by (simp add: signalCount_def)
  show ?thesis
    using range mono [where a = i and b = i'] flags [where a = i and b = i'] by blast
qed

theorem C8_computeConfidence_witness:
  "0.10 \<le> computeConfidence \<lparr>hasStatus = False, hasImage = True, hasInventory = False,
                               daysSinceUpdated = 12\<rparr>
   \<and> computeConfidence \<lparr>hasStatus = False, hasImage = True, hasInventory = False,
                         daysSinceUpdated = 12\<rparr> = 0.70
   \<and> computeConfidence \<lparr>hasStatus = True, hasImage = True, hasInventory = False,
                         daysSinceUpdated = 12\<rparr> = 0.85
   \<and> computeConfidence \<lparr>hasStatus = False, hasImage = True, hasInventory = False,
                         daysSinceUpdated = 12\<rparr>
      \<le> computeConfidence \<lparr>hasStatus = True, hasImage = True, hasInventory = False,
                             daysSinceUpdated = 12\<rparr>"
  using C8_computeConfidence_range_mono
    [of "\<lparr>hasStatus = False, hasImage = True, hasInventory = False, daysSinceUpdated = 12\<rparr>"
        "\<lparr>hasStatus = True, hasImage = True, hasInventory = False, daysSinceUpdated = 12\<rparr>"]
  by (simp add: computeConfidence_def signalCount_def Let_def)

subsection \<open>Failure of a claimed job\<close>

lemma getBackoffMs_table:
  "getBackoffMs 0 = 2000" "getBackoffMs 1 = 5000" "getBackoffMs 2 = 10000"
  by (simp_all add: getBackoffMs_def BACKOFF_MS_def)

lemma getBackoffMs_clamped: "2 \<le> k \<Longrightarrow> getBackoffMs k = 10000"
  by (simp add: getBackoffMs_def BACKOFF_MS_def min_def)

lemma failure_transaction_ok:
  assumes job: "findUnique_insightJob jobId s = Some job"
    and ins: "find (\<lambda>i. i_id i = insightId) (productInsight s) = Some ins"
  shows "failure_transaction jobId insightId willRetry message nextRetryAt env s =
     Inr (s\<lparr>productInsight :=
               map (\<lambda>i. if i_id i = insightId
                         then i\<lparr>i_aiStatus := Some (if willRetry then QUEUED else FAILED),
                                 i_aiError := (if willRetry then None else Some (take 500 message))\<rparr>
                         else i) (productInsight s),
            insightJob :=
               map (\<lambda>j. if j_id j = jobId
                         then j\<lparr>j_status := (if willRetry then QUEUED else FAILED),
                                 j_lastError := Some (take 500 message),
                                 j_nextRetryAt := nextRetryAt,
                                 j_updatedAt := pe_failStamp env\<rparr>
                         else j) (insightJob s)\<rparr>)"
proof -
  have "jobId \<in> set (map j_id (insightJob s))"
    using job find_id_mem [of j_id jobId "insightJob s" job]
    by (simp add: findUnique_insightJob_def)
  moreover have "insightId \<in> set (map i_id (productInsight s))"
    using ins find_id_mem [of i_id insightId "productInsight s" ins] by simp
  ultimately show ?thesis
    by (simp add: failure_transaction_def transaction2_def update_productInsight_def
        update_insightJob_def)
qed

text \<open>
  Claim C3. Let the AI call of a claimed job throw \<open>err\<close>, let \<open>job\<close> be the job's row,
  \<open>ins\<close> the insight's row and let the run of a run-owned job exist. Then \<open>processJob\<close>
  returns normally and, with \<open>a\<close> the attempts of the job and \<open>m\<close> the message cut to 500
  characters: if \<open>a < 3\<close> the job is \<open>QUEUED\<close> with \<open>nextRetryAt = now + getBackoffMs (a - 1)\<close>
  and \<open>lastError = m\<close>, the insight mirror is \<open>QUEUED\<close> with no error, and no run changes; if
  \<open>a \<ge> 3\<close> the job and the mirror are \<open>FAILED\<close> with \<open>m\<close>, and the \<open>failed\<close> counter of the
  job's run goes up by one (one write, no other run field or run changes). The backoff of
  index 0, 1, 2 is 2 s, 5 s, 10 s, and 10 s for every index from 2 on.
\<close>

theorem C3_failure_retry_or_fail:
  assumes ai: "pe_ai env = Inl err"
    and job: "findUnique_insightJob jobId s = Some job"
    and ins: "find (\<lambda>i. i_id i = ci_id insight) (productInsight s) = Some ins"
    and run: "truthy runId \<longrightarrow> (\<exists>r. runId = Some r \<and> r \<in> set (map r_id (run s)))"
  shows "\<exists>ws. processJob jobId insight shop productId runId env s = (None, ws)
    \<and> (j_attempts job < 3 \<longrightarrow>
          findUnique_insightJob jobId (finalStore s ws) =
            Some (job\<lparr>j_status := QUEUED,
                       j_lastError := Some (take 500 (errorMessage err)),
                       j_nextRetryAt := Some (pe_failNow env + getBackoffMs (j_attempts job - 1)),
                       j_updatedAt := pe_failStamp env\<rparr>)
        \<and> find (\<lambda>i. i_id i = ci_id insight) (productInsight (finalStore s ws)) =
            Some (ins\<lparr>i_aiStatus := Some QUEUED, i_aiError := None\<rparr>)
        \<and> run (finalStore s ws) = run s)
    \<and> (j_attempts job \<ge> 3 \<longrightarrow>
          findUnique_insightJob jobId (finalStore s ws) =
            Some (job\<lparr>j_status := FAILED,
                       j_lastError := Some (take 500 (errorMessage err)),
                       j_nextRetryAt := None,
                       j_updatedAt := pe_failStamp env\<rparr>)
        \<and> find (\<lambda>i. i_id i = ci_id insight) (productInsight (finalStore s ws)) =
            Some (ins\<lparr>i_aiStatus := Some FAILED,
                       i_aiError := Some (take 500 (errorMessage err))\<rparr>)
        \<and> run (finalStore s ws) =
            (if truthy runId
             then map (\<lambda>x. if Some (r_id x) = runId then x\<lparr>r_failed := r_failed x + 1\<rparr> else x)
                    (run s)
             else run s))
    \<and> getBackoffMs 0 = 2000 \<and> getBackoffMs 1 = 5000 \<and> getBackoffMs 2 = 10000
    \<and> (\<forall>k\<ge>2. getBackoffMs k = 10000)"
proof -
  let ?m = "take 500 (errorMessage err)"
  have tryblk: "processJob_try jobId insight runId env s = (Some err, [])"
    by (simp add: processJob_try_def ai)
  have jid: "j_id job = jobId"
    using job find_id_mem [of j_id jobId "insightJob s" job]
    by (simp add: findUnique_insightJob_def)
  have iid: "i_id ins = ci_id insight"
    using find_id_mem [OF ins] by simp
  have backoff: "getBackoffMs 0 = 2000 \<and> getBackoffMs 1 = 5000 \<and> getBackoffMs 2 = 10000
    \<and> (\<forall>k\<ge>2. getBackoffMs k = 10000)"
    using getBackoffMs_table getBackoffMs_clamped by simp
  show ?thesis
  proof (cases "j_attempts job < 3")
    case True
    let ?next = "Some (pe_failNow env + getBackoffMs (j_attempts job - 1))"
    define s1 where "s1 = s\<lparr>productInsight :=
               map (\<lambda>i. if i_id i = ci_id insight
                         then i\<lparr>i_aiStatus := Some QUEUED, i_aiError := None\<rparr>
                         else i) (productInsight s),
            insightJob :=
               map (\<lambda>j. if j_id j = jobId
                         then j\<lparr>j_status := QUEUED, j_lastError := Some ?m,
                                 j_nextRetryAt := ?next, j_updatedAt := pe_failStamp env\<rparr>
                         else j) (insightJob s)\<rparr>"
    have tx: "failure_transaction jobId (ci_id insight) True (errorMessage err) ?next env s
                = Inr s1"
      using failure_transaction_ok [OF job ins, of True] by (simp add: s1_def)
    have catch: "processJob_catch err jobId insight runId env s = (None, [s1])"
      using tx job True
      by (simp add: processJob_catch_def Let_def MAX_ATTEMPTS_def split: option.splits)
    have pj: "processJob jobId insight shop productId runId env s = (None, [s1])"
      by (simp add: processJob_def tryblk catch)
    have job1: "findUnique_insightJob jobId s1 =
        Some (job\<lparr>j_status := QUEUED, j_lastError := Some ?m,
                   j_nextRetryAt := ?next, j_updatedAt := pe_failStamp env\<rparr>)"
      using job jid by (simp add: s1_def findUnique_insightJob_def find_map_update)
    have ins1: "find (\<lambda>i. i_id i = ci_id insight) (productInsight s1) =
        Some (ins\<lparr>i_aiStatus := Some QUEUED, i_aiError := None\<rparr>)"
      using ins iid by (simp add: s1_def find_map_update)
    have run1: "run s1 = run s" by (simp add: s1_def)
    from True job1 ins1 run1 backoff show ?thesis
      unfolding pj by simp
  next
    case False
    define s1 where "s1 = s\<lparr>productInsight :=
               map (\<lambda>i. if i_id i = ci_id insight
                         then i\<lparr>i_aiStatus := Some FAILED, i_aiError := Some ?m\<rparr>
                         else i) (productInsight s),
            insightJob :=
               map (\<lambda>j. if j_id j = jobId
                         then j\<lparr>j_status := FAILED, j_lastError := Some ?m,
                                 j_nextRetryAt := None, j_updatedAt := pe_failStamp env\<rparr>
                         else j) (insightJob s)\<rparr>"
    have tx: "failure_transaction jobId (ci_id insight) False (errorMessage err) None env s
                = Inr s1"
      using failure_transaction_ok [OF job ins, of False] by (simp add: s1_def)
    have job1: "findUnique_insightJob jobId s1 =
        Some (job\<lparr>j_status := FAILED, j_lastError := Some ?m,
                   j_nextRetryAt := None, j_updatedAt := pe_failStamp env\<rparr>)"
      using job jid by (simp add: s1_def findUnique_insightJob_def find_map_update)
    have ins1: "find (\<lambda>i. i_id i = ci_id insight) (productInsight s1) =
        Some (ins\<lparr>i_aiStatus := Some FAILED, i_aiError := Some ?m\<rparr>)"
      using ins iid by (simp add: s1_def find_map_update)
    have run1: "run s1 = run s" by (simp add: s1_def)
    show ?thesis
    proof (cases "truthy runId")
      case noRun: False
      have catch: "processJob_catch err jobId insight runId env s = (None, [s1])"
        using tx job False noRun
        by (auto simp add: processJob_catch_def Let_def MAX_ATTEMPTS_def truthy_def
            split: option.splits)
      have pj: "processJob jobId insight shop productId runId env s = (None, [s1])"
        by (simp add: processJob_def tryblk catch)
      from False noRun job1 ins1 run1 backoff show ?thesis
        unfolding pj by simp
    next
      case owned: True
      then obtain r where r: "runId = Some r" "r \<in> set (map r_id (run s))" "r \<noteq> []"
        using run by (auto simp add: truthy_def)
      define s2 where
        "s2 = s1\<lparr>run := map (\<lambda>x. if r_id x = r then x\<lparr>r_failed := r_failed x + 1\<rparr> else x)
                           (run s)\<rparr>"
      have upd: "update_run r (\<lambda>x. x\<lparr>r_failed := r_failed x + 1\<rparr>) s1 = Inr s2"
        using r run1 by (simp add: update_run_def s2_def)
      have catch: "processJob_catch err jobId insight runId env s = (None, [s1, s2])"
        using tx job False r upd
        by (simp add: processJob_catch_def Let_def MAX_ATTEMPTS_def)
      have pj: "processJob jobId insight shop productId runId env s = (None, [s1, s2])"
        by (simp add: processJob_def tryblk catch)
      have job2: "findUnique_insightJob jobId s2 =
          Some (job\<lparr>j_status := FAILED, j_lastError := Some ?m,
                     j_nextRetryAt := None, j_updatedAt := pe_failStamp env\<rparr>)"
        using job1 by (simp add: findUnique_insightJob_def s2_def)
      have ins2: "find (\<lambda>i. i_id i = ci_id insight) (productInsight s2) =
          Some (ins\<lparr>i_aiStatus := Some FAILED, i_aiError := Some ?m\<rparr>)"
        using ins1 by (simp add: s2_def)
      have run2: "run s2 =
          map (\<lambda>x. if Some (r_id x) = runId then x\<lparr>r_failed := r_failed x + 1\<rparr> else x) (run s)"
        using r by (simp add: s2_def)
      from False owned job2 ins2 run2 backoff show ?thesis
        unfolding pj by simp
    qed
  qed
qed

theorem C3_failure_witness:
  "\<exists>ws. processJob ''job1'' (claimedInsight ex_insight) ''shopA'' ''p1'' (Some ''run1'')
            ex_env_fail ex_store = (None, ws)
     \<and> findUnique_insightJob ''job1'' (finalStore ex_store ws) =
         Some (ex_job\<lparr>j_status := FAILED, j_lastError := Some ''timeout'',
                      j_nextRetryAt := None, j_updatedAt := 3003\<rparr>)
     \<and> find (\<lambda>i. i_id i = ''ins1'') (productInsight (finalStore ex_store ws)) =
         Some (ex_insight\<lparr>i_aiStatus := Some FAILED, i_aiError := Some ''timeout''\<rparr>)
     \<and> run (finalStore ex_store ws) = [ex_run\<lparr>r_failed := 1\<rparr>]"
proof -
  have ai: "pe_ai ex_env_fail = Inl (Error ''timeout'')"
    by (simp add: ex_env_fail_def)
  have job: "findUnique_insightJob ''job1'' ex_store = Some ex_job"
    by (simp add: findUnique_insightJob_def ex_store_def ex_job_def)
  have ins: "find (\<lambda>i. i_id i = ci_id (claimedInsight ex_insight)) (productInsight ex_store)
               = Some ex_insight"
    by (simp add: claimedInsight_def ex_store_def ex_insight_def)
  have run: "truthy (Some ''run1'') \<longrightarrow>
               (\<exists>r. Some ''run1'' = Some r \<and> r \<in> set (map r_id (run ex_store)))"
    by (simp add: ex_store_def ex_run_def)
  have att: "j_attempts ex_job = 3" "ci_id (claimedInsight ex_insight) = ''ins1''"
    "pe_failStamp ex_env_fail = 3003" "truthy (Some ''run1'')"
    "run ex_store = [ex_run]" "r_id ex_run = ''run1''" "r_failed ex_run = 0"
    by (simp_all add: ex_job_def claimedInsight_def ex_insight_def ex_env_fail_def truthy_def
        ex_store_def ex_run_def)
  from C3_failure_retry_or_fail [OF ai job ins run, of "''shopA''" "''p1''"]
  show ?thesis
    by (simp add: att errorMessage_def, blast)
qed

subsection \<open>Success of a claimed job\<close>

lemma success_transaction_ok:
  assumes job: "findUnique_insightJob jobId s = Some job"
    and ins: "find (\<lambda>i. i_id i = insightId) (productInsight s) = Some ins"
  shows "success_transaction jobId insightId output model env s =
     Inr (s\<lparr>productInsight :=
               map (\<lambda>i. if i_id i = insightId
                         then i\<lparr>i_aiExplanation := Some (aiExplanation output),
                                 i_aiActionType := Some (actionType output),
                                 i_aiGeneratedAt := Some (pe_generatedAt env),
                                 i_aiModel := Some model,
                                 i_aiStatus := Some SUCCEEDED,
                                 i_aiError := None,
                                 i_reasonsJson := (if length (nextSteps output) > 0
                                                   then Some (nextSteps output) else None)\<rparr>
                         else i) (productInsight s),
            insightJob :=
               map (\<lambda>j. if j_id j = jobId
                         then j\<lparr>j_status := SUCCEEDED, j_lastError := None,
                                 j_updatedAt := pe_successStamp env\<rparr>
                         else j) (insightJob s)\<rparr>)"
proof -
  have "jobId \<in> set (map j_id (insightJob s))"
    using job find_id_mem [of j_id jobId "insightJob s" job]
    by (simp add: findUnique_insightJob_def)
  moreover have "insightId \<in> set (map i_id (productInsight s))"
    using ins find_id_mem [of i_id insightId "productInsight s" ins] by simp
  ultimately show ?thesis
    by (simp add: success_transaction_def transaction2_def update_productInsight_def
        update_insightJob_def)
qed

lemma processJob_success:
  assumes ai: "pe_ai env = Inr (output, model)"
    and job: "findUnique_insightJob jobId s = Some job"
    and ins: "find (\<lambda>i. i_id i = ci_id insight) (productInsight s) = Some ins"
    and run: "truthy runId \<longrightarrow> (\<exists>r. runId = Some r \<and> r \<in> set (map r_id (run s)))"
  shows "\<exists>s1. processJob jobId insight shop productId runId env s =
      (None,
       if truthy runId
       then [s1, s1\<lparr>run := map (\<lambda>x. if Some (r_id x) = runId
                                     then x\<lparr>r_succeeded := r_succeeded x + 1\<rparr> else x)
                              (run s)\<rparr>]
       else [s1])
    \<and> findUnique_insightJob jobId s1 =
        Some (job\<lparr>j_status := SUCCEEDED, j_lastError := None,
                   j_updatedAt := pe_successStamp env\<rparr>)
    \<and> find (\<lambda>i. i_id i = ci_id insight) (productInsight s1) =
        Some (ins\<lparr>i_aiExplanation := Some (aiExplanation output),
                   i_aiActionType := Some (actionType output),
                   i_aiGeneratedAt := Some (pe_generatedAt env),
                   i_aiModel := Some model,
                   i_aiStatus := Some SUCCEEDED,
                   i_aiError := None,
                   i_reasonsJson := (if length (nextSteps output) > 0
                                     then Some (nextSteps output) else None)\<rparr>)
    \<and> jobSucceeded jobId s1 \<and> insightSucceeded (ci_id insight) s1
    \<and> run s1 = run s"
proof -
  define s1 where "s1 = s\<lparr>productInsight :=
               map (\<lambda>i. if i_id i = ci_id insight
                         then i\<lparr>i_aiExplanation := Some (aiExplanation output),
                                 i_aiActionType := Some (actionType output),
                                 i_aiGeneratedAt := Some (pe_generatedAt env),
                                 i_aiModel := Some model,
                                 i_aiStatus := Some SUCCEEDED,
                                 i_aiError := None,
                                 i_reasonsJson := (if length (nextSteps output) > 0
                                                   then Some (nextSteps output) else None)\<rparr>
                         else i) (productInsight s),
            insightJob :=
               map (\<lambda>j. if j_id j = jobId
                         then j\<lparr>j_status := SUCCEEDED, j_lastError := None,
                                 j_updatedAt := pe_successStamp env\<rparr>
                         else j) (insightJob s)\<rparr>"
  have tx: "success_transaction jobId (ci_id insight) output model env s = Inr s1"
    using success_transaction_ok [OF job ins] by (simp add: s1_def)
  have jid: "j_id job = jobId"
    using job find_id_mem [of j_id jobId "insightJob s" job]
    by (simp add: findUnique_insightJob_def)
  have iid: "i_id ins = ci_id insight"
    using find_id_mem [OF ins] by simp
  have job1: "findUnique_insightJob jobId s1 =
        Some (job\<lparr>j_status := SUCCEEDED, j_lastError := None,
                   j_updatedAt := pe_successStamp env\<rparr>)"
    using job jid by (simp add: s1_def findUnique_insightJob_def find_map_update)
  have ins1: "find (\<lambda>i. i_id i = ci_id insight) (productInsight s1) =
        Some (ins\<lparr>i_aiExplanation := Some (aiExplanation output),
                   i_aiActionType := Some (actionType output),
                   i_aiGeneratedAt := Some (pe_generatedAt env),
                   i_aiModel := Some model,
                   i_aiStatus := Some SUCCEEDED,
                   i_aiError := None,
                   i_reasonsJson := (if length (nextSteps output) > 0
                                     then Some (nextSteps output) else None)\<rparr>)"
    using ins iid by (simp add: s1_def find_map_update)
  have run1: "run s1 = run s" by (simp add: s1_def)
  have js: "jobSucceeded jobId s1"
    by (simp add: jobSucceeded_def job1)
  have isucc: "insightSucceeded (ci_id insight) s1"
    by (simp add: insightSucceeded_def ins1)
  have pj: "processJob jobId insight shop productId runId env s =
      (None,
       if truthy runId
       then [s1, s1\<lparr>run := map (\<lambda>x. if Some (r_id x) = runId
                                     then x\<lparr>r_succeeded := r_succeeded x + 1\<rparr> else x)
                              (run s)\<rparr>]
       else [s1])"
  proof (cases "truthy runId")
    case False
    then have "processJob_try jobId insight runId env s = (None, [s1])"
      using tx ai by (auto simp add: processJob_try_def truthy_def split: option.splits)
    then show ?thesis
      using False by (simp add: processJob_def)
  next
    case True
    then obtain r where r: "runId = Some r" "r \<in> set (map r_id (run s))" "r \<noteq> []"
      using run by (auto simp add: truthy_def)
    have "update_run r (\<lambda>x. x\<lparr>r_succeeded := r_succeeded x + 1\<rparr>) s1 =
        Inr (s1\<lparr>run := map (\<lambda>x. if r_id x = r then x\<lparr>r_succeeded := r_succeeded x + 1\<rparr> else x)
                            (run s)\<rparr>)"
      using r run1 by (simp add: update_run_def)
    then have "processJob_try jobId insight runId env s =
        (None, [s1, s1\<lparr>run := map (\<lambda>x. if r_id x = r then x\<lparr>r_succeeded := r_succeeded x + 1\<rparr>
                                           else x) (run s)\<rparr>])"
      using tx ai r by (simp add: processJob_try_def)
    then show ?thesis
      using True r by (simp add: processJob_def)
  qed
  from pj job1 ins1 js isucc run1 show ?thesis
    by blast
qed

text \<open>
  Claim C2, as the code has it. Let the AI call of a claimed job return \<open>output\<close> and
  \<open>model\<close>, let \<open>job\<close> be the job's row, \<open>ins\<close> the insight's row and let the run of a
  run-owned job exist. Then \<open>processJob\<close> returns normally. Its first committed state \<open>s1\<close>
  has the insight update and the job update together (one transaction) and the runs as
  before. For a job without a run this is the only write; for a run-owned job a second
  write follows, which adds one to the \<open>succeeded\<close> counter of the run and changes nothing
  else.
\<close>

theorem C2_success_two_writes:
  assumes ai: "pe_ai env = Inr (output, model)"
    and job: "findUnique_insightJob jobId s = Some job"
    and ins: "find (\<lambda>i. i_id i = ci_id insight) (productInsight s) = Some ins"
    and run: "truthy runId \<longrightarrow> (\<exists>r. runId = Some r \<and> r \<in> set (map r_id (run s)))"
  shows "\<exists>s1. processJob jobId insight shop productId runId env s =
      (None,
       if truthy runId
       then [s1, s1\<lparr>run := map (\<lambda>x. if Some (r_id x) = runId
                                     then x\<lparr>r_succeeded := r_succeeded x + 1\<rparr> else x)
                              (run s)\<rparr>]
       else [s1])
    \<and> findUnique_insightJob jobId s1 =
        Some (job\<lparr>j_status := SUCCEEDED, j_lastError := None,
                   j_updatedAt := pe_successStamp env\<rparr>)
    \<and> find (\<lambda>i. i_id i = ci_id insight) (productInsight s1) =
        Some (ins\<lparr>i_aiExplanation := Some (aiExplanation output),
                   i_aiActionType := Some (actionType output),
                   i_aiGeneratedAt := Some (pe_generatedAt env),
                   i_aiModel := Some model,
                   i_aiStatus := Some SUCCEEDED,
                   i_aiError := None,
                   i_reasonsJson := (if length (nextSteps output) > 0
                                     then Some (nextSteps output) else None)\<rparr>)
    \<and> jobSucceeded jobId s1 \<and> insightSucceeded (ci_id insight) s1
    \<and> run s1 = run s"
  using processJob_success [OF ai job ins run] .

theorem C2_success_witness:
  "\<exists>s1. processJob ''job1'' (claimedInsight ex_insight) ''shopA'' ''p1'' (Some ''run1'')
            ex_env_ok ex_store =
          (None, [s1, s1\<lparr>run := [ex_run\<lparr>r_succeeded := 1\<rparr>]\<rparr>])
     \<and> findUnique_insightJob ''job1'' s1 =
         Some (ex_job\<lparr>j_status := SUCCEEDED, j_lastError := None, j_updatedAt := 3001\<rparr>)
     \<and> jobSucceeded ''job1'' s1 \<and> insightSucceeded ''ins1'' s1
     \<and> run s1 = [ex_run]"
proof -
  have ai: "pe_ai ex_env_ok = Inr (ex_output, ''gpt-4o-mini'')"
    by (simp add: ex_env_ok_def)
  have job: "findUnique_insightJob ''job1'' ex_store = Some ex_job"
    by (simp add: findUnique_insightJob_def ex_store_def ex_job_def)
  have ins: "find (\<lambda>i. i_id i = ci_id (claimedInsight ex_insight)) (productInsight ex_store)
               = Some ex_insight"
    by (simp add: claimedInsight_def ex_store_def ex_insight_def)
  have run: "truthy (Some ''run1'') \<longrightarrow>
               (\<exists>r. Some ''run1'' = Some r \<and> r \<in> set (map r_id (run ex_store)))"
    by (simp add: ex_store_def ex_run_def)
  have att: "ci_id (claimedInsight ex_insight) = ''ins1''"
    "pe_successStamp ex_env_ok = 3001" "truthy (Some ''run1'')"
    "run ex_store = [ex_run]" "r_id ex_run = ''run1''" "r_succeeded ex_run = 0"
    by (simp_all add: claimedInsight_def ex_insight_def ex_env_ok_def truthy_def
        ex_store_def ex_run_def)
  from C2_success_two_writes [OF ai job ins run, of "''shopA''" "''p1''"]
  show ?thesis
    by (simp add: att, blast)
qed

text \<open>
  Claim C2 as stated fails: for the sample run-owned job the first committed state has the
  job and the insight \<open>SUCCEEDED\<close> while the run's counter is still 0.
\<close>

theorem C2_not_atomic_counterexample:
  "\<not> success_atomic ''job1'' ''ins1'' ''run1'' ex_store
       (snd (processJob ''job1'' (claimedInsight ex_insight) ''shopA'' ''p1'' (Some ''run1'')
               ex_env_ok ex_store))"
proof -
  have ai: "pe_ai ex_env_ok = Inr (ex_output, ''gpt-4o-mini'')"
    by (simp add: ex_env_ok_def)
  have job: "findUnique_insightJob ''job1'' ex_store = Some ex_job"
    by (simp add: findUnique_insightJob_def ex_store_def ex_job_def)
  have ins: "find (\<lambda>i. i_id i = ci_id (claimedInsight ex_insight)) (productInsight ex_store)
               = Some ex_insight"
    by (simp add: claimedInsight_def ex_store_def ex_insight_def)
  have run: "truthy (Some ''run1'') \<longrightarrow>
               (\<exists>r. Some ''run1'' = Some r \<and> r \<in> set (map r_id (run ex_store)))"
    by (simp add: ex_store_def ex_run_def)
  have att: "ci_id (claimedInsight ex_insight) = ''ins1''" "truthy (Some ''run1'')"
    "run ex_store = [ex_run]" "r_id ex_run = ''run1''"
    by (simp_all add: claimedInsight_def ex_insight_def truthy_def ex_store_def ex_run_def)
  obtain s1 where pj: "processJob ''job1'' (claimedInsight ex_insight) ''shopA'' ''p1''
        (Some ''run1'') ex_env_ok ex_store =
          (None, [s1, s1\<lparr>run := [ex_run\<lparr>r_succeeded := r_succeeded ex_run + 1\<rparr>]\<rparr>])"
    and js: "jobSucceeded ''job1'' s1" and r1: "run s1 = run ex_store"
    using processJob_success [OF ai job ins run, of "''shopA''" "''p1''"]
    by (auto simp add: att)
  have "\<not> runCounted ''run1'' ex_store s1"
    by (simp add: runCounted_def r1 att)
  then show ?thesis
    using js by (simp add: pj success_atomic_def)
qed

subsection \<open>Enqueueing\<close>

lemma enqueue_create_ok:
  assumes fresh: "newId \<notin> set (map j_id (insightJob s))"
    and fk: "\<forall>r. runId = Some r \<longrightarrow> r \<in> set (map r_id (run s))"
  shows "\<exists>ws. enqueue_create shop productId runId newId now s = (Inr (Some newId), ws)
    \<and> ws \<noteq> []
    \<and> (\<forall>t\<in>set ws. insightJob t = insightJob s @
          [\<lparr>j_id = newId, j_shop = shop, j_productId = productId, j_runId = runId,
            j_status = QUEUED, j_attempts = 0, j_lastError = None,
            j_nextRetryAt = None, j_createdAt = now, j_updatedAt = now\<rparr>]
          \<and> run t = run s \<and> webhookEvent t = webhookEvent s \<and> session t = session s)"
proof -
  define s1 where "s1 = s\<lparr>insightJob := insightJob s @
          [\<lparr>j_id = newId, j_shop = shop, j_productId = productId, j_runId = runId,
            j_status = QUEUED, j_attempts = 0, j_lastError = None,
            j_nextRetryAt = None, j_createdAt = now, j_updatedAt = now\<rparr>]\<rparr>"
  have cr: "create_insightJob newId shop productId runId now s = Inr s1"
    using fresh fk by (auto simp add: create_insightJob_def s1_def split: option.splits)
  show ?thesis
  proof (cases "findUnique_productInsight shop productId s1")
    case None
    then have "enqueue_create shop productId runId newId now s = (Inr (Some newId), [s1])"
      by (simp add: enqueue_create_def cr)
    then show ?thesis by (simp add: s1_def)
  next
    case (Some insight)
    then have "i_id insight \<in> set (map i_id (productInsight s1))"
      unfolding findUnique_productInsight_def by (auto simp add: find_Some_iff)
    then have "enqueue_create shop productId runId newId now s =
        (Inr (Some newId),
         [s1, s1\<lparr>productInsight :=
                  map (\<lambda>i. if i_id i = i_id insight
                            then i\<lparr>i_aiStatus := Some QUEUED, i_aiError := None\<rparr> else i)
                    (productInsight s1)\<rparr>])"
      using Some by (simp add: enqueue_create_def cr update_productInsight_def)
    then show ?thesis by (simp add: s1_def)
  qed
qed

lemma enqueue_not_forced:
  assumes "find (\<lambda>j. j_shop j = shop \<and> j_productId j = productId \<and> activeStatus j)
             (insightJob s) = Some existing"
  shows "enqueueInsightJob shop productId runId False newId now s = (Inr None, [])"
  using assms by (simp add: enqueueInsightJob_def)

lemma enqueue_forced:
  assumes ex: "find (\<lambda>j. j_shop j = shop \<and> j_productId j = productId \<and> activeStatus j)
             (insightJob s) = Some existing"
    and fresh: "newId \<notin> set (map j_id (insightJob s))"
    and fk: "\<forall>r. runId = Some r \<longrightarrow> r \<in> set (map r_id (run s))"
  shows "\<exists>s1 ws. enqueueInsightJob shop productId runId True newId now s
                    = (Inr (Some newId), s1 # ws)
    \<and> s1 = s\<lparr>insightJob :=
               map (\<lambda>j. if j_id j = j_id existing
                         then j\<lparr>j_status := FAILED,
                                 j_lastError := Some ''Superseded by regenerate'',
                                 j_updatedAt := now\<rparr>
                         else j) (insightJob s)\<rparr>
    \<and> ws \<noteq> []
    \<and> (\<forall>t\<in>set ws. insightJob t = insightJob s1 @
          [\<lparr>j_id = newId, j_shop = shop, j_productId = productId, j_runId = runId,
            j_status = QUEUED, j_attempts = 0, j_lastError = None,
            j_nextRetryAt = None, j_createdAt = now, j_updatedAt = now\<rparr>]
          \<and> run t = run s \<and> webhookEvent t = webhookEvent s \<and> session t = session s)"
proof -
  define s1 where "s1 = s\<lparr>insightJob :=
               map (\<lambda>j. if j_id j = j_id existing
                         then j\<lparr>j_status := FAILED,
                                 j_lastError := Some ''Superseded by regenerate'',
                                 j_updatedAt := now\<rparr>
                         else j) (insightJob s)\<rparr>"
  have mem: "existing \<in> set (insightJob s)"
    using ex by (auto simp add: find_Some_iff)
  then have upd: "update_insightJob (j_id existing)
        (\<lambda>j. j\<lparr>j_status := FAILED, j_lastError := Some ''Superseded by regenerate'',
                j_updatedAt := now\<rparr>) s = Inr s1"
    by (simp add: update_insightJob_def s1_def)
  have ids: "map j_id (insightJob s1) = map j_id (insightJob s)"
    by (simp add: s1_def map_update_ids o_def)
  have fresh1: "newId \<notin> set (map j_id (insightJob s1))"
    using fresh ids by simp
  have fk1: "\<forall>r. runId = Some r \<longrightarrow> r \<in> set (map r_id (run s1))"
    using fk by (simp add: s1_def)
  obtain ws where ws: "enqueue_create shop productId runId newId now s1 = (Inr (Some newId), ws)"
    "ws \<noteq> []"
    "\<forall>t\<in>set ws. insightJob t = insightJob s1 @
          [\<lparr>j_id = newId, j_shop = shop, j_productId = productId, j_runId = runId,
            j_status = QUEUED, j_attempts = 0, j_lastError = None,
            j_nextRetryAt = None, j_createdAt = now, j_updatedAt = now\<rparr>]
          \<and> run t = run s1 \<and> webhookEvent t = webhookEvent s1 \<and> session t = session s1"
    using enqueue_create_ok [OF fresh1 fk1] by blast
  have "enqueueInsightJob shop productId runId True newId now s = (Inr (Some newId), s1 # ws)"
    by (simp add: enqueueInsightJob_def ex upd ws(1))
  moreover have "run s1 = run s" "webhookEvent s1 = webhookEvent s" "session s1 = session s"
    by (simp_all add: s1_def)
  ultimately show ?thesis
    using ws(2,3) s1_def by auto
qed

text \<open>
  Claim C4. Let \<open>existing\<close> be the active job (status \<open>QUEUED\<close> or \<open>RUNNING\<close>) that the
  query for \<open>(shop, productId)\<close> finds. With \<open>force = False\<close>, \<open>enqueueInsightJob\<close> writes
  nothing and returns \<^verbatim>\<open>null\<close>. With \<open>force = True\<close> (and a fresh generated id, and a run
  id that names a run), its first write marks \<open>existing\<close> \<open>FAILED\<close> with the error
  \<^verbatim>\<open>Superseded by regenerate\<close> and creates nothing; every later state has exactly one job
  more, the new one, \<open>QUEUED\<close>; and the new job's id is returned.
\<close>

theorem C4_enqueue_active_job:
  assumes ex: "find (\<lambda>j. j_shop j = shop \<and> j_productId j = productId \<and> activeStatus j)
             (insightJob s) = Some existing"
  shows "enqueueInsightJob shop productId runId False newId now s = (Inr None, [])
    \<and> (newId \<notin> set (map j_id (insightJob s))
        \<and> (\<forall>r. runId = Some r \<longrightarrow> r \<in> set (map r_id (run s)))
       \<longrightarrow> (\<exists>s1 ws. enqueueInsightJob shop productId runId True newId now s
                        = (Inr (Some newId), s1 # ws)
             \<and> insightJob s1 =
                 map (\<lambda>j. if j_id j = j_id existing
                           then j\<lparr>j_status := FAILED,
                                   j_lastError := Some ''Superseded by regenerate'',
                                   j_updatedAt := now\<rparr>
                           else j) (insightJob s)
             \<and> ws \<noteq> []
             \<and> (\<forall>t\<in>set ws. insightJob t = insightJob s1 @
                   [\<lparr>j_id = newId, j_shop = shop, j_productId = productId, j_runId = runId,
                     j_status = QUEUED, j_attempts = 0, j_lastError = None,
                     j_nextRetryAt = None, j_createdAt = now, j_updatedAt = now\<rparr>])))"
proof -
  have a: "enqueueInsightJob shop productId runId False newId now s = (Inr None, [])"
    by (rule enqueue_not_forced [OF ex])
  have b: "\<exists>s1 ws. enqueueInsightJob shop productId runId True newId now s
                        = (Inr (Some newId), s1 # ws)
             \<and> insightJob s1 =
                 map (\<lambda>j. if j_id j = j_id existing
                           then j\<lparr>j_status := FAILED,
                                   j_lastError := Some ''Superseded by regenerate'',
                                   j_updatedAt := now\<rparr>
                           else j) (insightJob s)
             \<and> ws \<noteq> []
             \<and> (\<forall>t\<in>set ws. insightJob t = insightJob s1 @
                   [\<lparr>j_id = newId, j_shop = shop, j_productId = productId, j_runId = runId,
                     j_status = QUEUED, j_attempts = 0, j_lastError = None,
                     j_nextRetryAt = None, j_createdAt = now, j_updatedAt = now\<rparr>])"
    if fresh: "newId \<notin> set (map j_id (insightJob s))"
      and fk: "\<forall>r. runId = Some r \<longrightarrow> r \<in> set (map r_id (run s))"
  proof -
    obtain s1 ws where h: "enqueueInsightJob shop productId runId True newId now s
                    = (Inr (Some newId), s1 # ws)"
      "s1 = s\<lparr>insightJob :=
               map (\<lambda>j. if j_id j = j_id existing
                         then j\<lparr>j_status := FAILED,
                                 j_lastError := Some ''Superseded by regenerate'',
                                 j_updatedAt := now\<rparr>
                         else j) (insightJob s)\<rparr>"
      "ws \<noteq> []"
      "\<forall>t\<in>set ws. insightJob t = insightJob s1 @
          [\<lparr>j_id = newId, j_shop = shop, j_productId = productId, j_runId = runId,
            j_status = QUEUED, j_attempts = 0, j_lastError = None,
            j_nextRetryAt = None, j_createdAt = now, j_updatedAt = now\<rparr>]
          \<and> run t = run s \<and> webhookEvent t = webhookEvent s \<and> session t = session s"
      using enqueue_forced [OF ex fresh fk] by blast
    have "insightJob s1 =
                 map (\<lambda>j. if j_id j = j_id existing
                           then j\<lparr>j_status := FAILED,
                                   j_lastError := Some ''Superseded by regenerate'',
                                   j_updatedAt := now\<rparr>
                           else j) (insightJob s)"
      by (simp add: h(2))
    with h(1,3,4) show ?thesis by blast
  qed
  from a b show ?thesis by blast
qed

theorem C4_enqueue_witness:
  "enqueueInsightJob ''shopA'' ''p1'' None False ''job2'' 5000 ex_store = (Inr None, [])
   \<and> (\<exists>s1 ws. enqueueInsightJob ''shopA'' ''p1'' None True ''job2'' 5000 ex_store
                 = (Inr (Some ''job2''), s1 # ws)
        \<and> insightJob s1 =
            [ex_job\<lparr>j_status := FAILED, j_lastError := Some ''Superseded by regenerate'',
                    j_updatedAt := 5000\<rparr>]
        \<and> insightJob (finalStore s1 ws) =
            [ex_job\<lparr>j_status := FAILED, j_lastError := Some ''Superseded by regenerate'',
                    j_updatedAt := 5000\<rparr>,
             \<lparr>j_id = ''job2'', j_shop = ''shopA'', j_productId = ''p1'', j_runId = None,
              j_status = QUEUED, j_attempts = 0, j_lastError = None,
              j_nextRetryAt = None, j_createdAt = 5000, j_updatedAt = 5000\<rparr>])"
proof -
  have ex: "find (\<lambda>j. j_shop j = ''shopA'' \<and> j_productId j = ''p1'' \<and> activeStatus j)
             (insightJob ex_store) = Some ex_job"
    by (simp add: ex_store_def ex_job_def activeStatus_def)
  have fresh: "''job2'' \<notin> set (map j_id (insightJob ex_store))"
    by (simp add: ex_store_def ex_job_def)
  have jobs: "insightJob ex_store = [ex_job]" "j_id ex_job = ''job1''"
    by (simp_all add: ex_store_def ex_job_def)
  have fin: "ws \<noteq> [] \<Longrightarrow> finalStore s1 ws \<in> set ws" for s1 :: store and ws
    by (simp add: finalStore_def)
  from C4_enqueue_active_job [OF ex, of None "''job2''" 5000] fresh
  obtain s1 ws where h:
    "enqueueInsightJob ''shopA'' ''p1'' None False ''job2'' 5000 ex_store = (Inr None, [])"
    "enqueueInsightJob ''shopA'' ''p1'' None True ''job2'' 5000 ex_store
       = (Inr (Some ''job2''), s1 # ws)"
    "insightJob s1 =
        [ex_job\<lparr>j_status := FAILED, j_lastError := Some ''Superseded by regenerate'',
                j_updatedAt := 5000\<rparr>]"
    "ws \<noteq> []"
    "\<forall>t\<in>set ws. insightJob t = insightJob s1 @
                   [\<lparr>j_id = ''job2'', j_shop = ''shopA'', j_productId = ''p1'', j_runId = None,
                     j_status = QUEUED, j_attempts = 0, j_lastError = None,
                     j_nextRetryAt = None, j_createdAt = 5000, j_updatedAt = 5000\<rparr>]"
    by (auto simp add: jobs)
  from h(5) fin [OF h(4)] have "insightJob (finalStore s1 ws) = insightJob s1 @
                   [\<lparr>j_id = ''job2'', j_shop = ''shopA'', j_productId = ''p1'', j_runId = None,
                     j_status = QUEUED, j_attempts = 0, j_lastError = None,
                     j_nextRetryAt = None, j_createdAt = 5000, j_updatedAt = 5000\<rparr>]"
    by blast
  with h(1,2,3) show ?thesis
    by auto
qed

subsection \<open>Claiming\<close>


lemma claim_findFirst_Some:
  assumes "claim_findFirst now s = Some c"
  shows "c \<in> set (insightJob s)" and "eligible now c"
    and "\<forall>j\<in>set (insightJob s). eligible now j \<longrightarrow> j_createdAt c \<le> j_createdAt j"
proof -
  let ?xs = "sort_key j_createdAt (insightJob s)"
  from assms obtain i where i: "i < length ?xs" "eligible now (?xs ! i)" "c = ?xs ! i"
    "\<forall>k<i. \<not> eligible now (?xs ! k)"
    unfolding claim_findFirst_def find_Some_iff by blast
  have "?xs ! i \<in> set ?xs" using i(1) by (rule nth_mem)
  then show "c \<in> set (insightJob s)" using i(3) by simp
  show "eligible now c" using i(2,3) by simp
  have sorted: "sorted (map j_createdAt ?xs)" by (rule sorted_sort_key)
  show "\<forall>j\<in>set (insightJob s). eligible now j \<longrightarrow> j_createdAt c \<le> j_createdAt j"
  proof (intro ballI impI)
    fix j assume "j \<in> set (insightJob s)" and el: "eligible now j"
    then have "j \<in> set ?xs" by simp
    then obtain k where k: "k < length ?xs" "?xs ! k = j"
      by (metis in_set_conv_nth)
    have "i \<le> k"
    proof (rule ccontr)
      assume "\<not> i \<le> k"
      then have "\<not> eligible now (?xs ! k)" using i(4) by simp
      then show False using el k(2) by simp
    qed
    then have "map j_createdAt ?xs ! i \<le> map j_createdAt ?xs ! k"
      using sorted k(1) by (simp add: sorted_iff_nth_mono del: sorted_sort_key)
    then show "j_createdAt c \<le> j_createdAt j"
      using i(1,3) k by simp
  qed
qed

lemma distinct_ids_eq:
  assumes "distinct (map f xs)" "x \<in> set xs" "y \<in> set xs" "f x = f y"
  shows "x = y"
  using assms by (meson distinct_map inj_on_eq_iff)

lemma claim_updateMany_candidate:
  assumes mem: "c \<in> set (insightJob s)" and el: "eligible now c"
    and dist: "distinct (map j_id (insightJob s))"
  shows "\<exists>n. n \<noteq> 0 \<and> claim_updateMany c tUpd s =
     (n, s\<lparr>insightJob :=
             map (\<lambda>j. if j = c
                       then c\<lparr>j_status := RUNNING, j_attempts := j_attempts c + 1,
                               j_nextRetryAt := None, j_updatedAt := tUpd\<rparr>
                       else j) (insightJob s)\<rparr>)"
proof -
  have hit: "claim_hit c j \<longleftrightarrow> j = c" if "j \<in> set (insightJob s)" for j
  proof
    assume "claim_hit c j"
    then have "j_id j = j_id c" by (simp add: claim_hit_def)
    then show "j = c" using distinct_ids_eq [OF dist that mem] by simp
  next
    assume "j = c"
    then show "claim_hit c j" using el by (simp add: claim_hit_def eligible_def)
  qed
  have "c \<in> set (filter (claim_hit c) (insightJob s))"
    using mem hit by simp
  then have n: "length (filter (claim_hit c) (insightJob s)) \<noteq> 0"
    by (metis length_0_conv empty_iff empty_set)
  have "map (\<lambda>j. if claim_hit c j
                   then j\<lparr>j_status := RUNNING, j_attempts := j_attempts j + 1,
                           j_nextRetryAt := None, j_updatedAt := tUpd\<rparr>
                   else j) (insightJob s)
      = map (\<lambda>j. if j = c
                   then c\<lparr>j_status := RUNNING, j_attempts := j_attempts c + 1,
                           j_nextRetryAt := None, j_updatedAt := tUpd\<rparr>
                   else j) (insightJob s)"
    by (rule map_cong) (auto simp add: hit)
  then show ?thesis
    using n by (simp add: claim_updateMany_def)
qed

lemma claim_transaction_candidate:
  assumes cand: "claim_findFirst now s = Some c"
    and dist: "distinct (map j_id (insightJob s))"
  shows "claim_transaction now tUpd s =
     (Some (c\<lparr>j_attempts := j_attempts c + 1\<rparr>),
      [s\<lparr>insightJob :=
           map (\<lambda>j. if j = c
                     then c\<lparr>j_status := RUNNING, j_attempts := j_attempts c + 1,
                             j_nextRetryAt := None, j_updatedAt := tUpd\<rparr>
                     else j) (insightJob s)\<rparr>])"
proof -
  from claim_updateMany_candidate [OF claim_findFirst_Some(1,2) [OF cand] dist, of tUpd]
  obtain n where "n \<noteq> 0" "claim_updateMany c tUpd s =
     (n, s\<lparr>insightJob :=
             map (\<lambda>j. if j = c
                       then c\<lparr>j_status := RUNNING, j_attempts := j_attempts c + 1,
                               j_nextRetryAt := None, j_updatedAt := tUpd\<rparr>
                       else j) (insightJob s)\<rparr>)"
    by blast
  then show ?thesis
    by (simp add: claim_transaction_def cand)
qed

lemma claimNextJob_candidate:
  assumes cand: "claim_findFirst now s = Some c"
    and dist: "distinct (map j_id (insightJob s))"
  shows "claimNextJob now tUpd tFail s =
     (case findUnique_productInsight (j_shop c) (j_productId c) s of
        None \<Rightarrow>
          (Inr None,
           [s\<lparr>insightJob :=
                map (\<lambda>j. if j = c
                          then c\<lparr>j_status := RUNNING, j_attempts := j_attempts c + 1,
                                  j_nextRetryAt := None, j_updatedAt := tUpd\<rparr>
                          else j) (insightJob s)\<rparr>,
            s\<lparr>insightJob :=
                map (\<lambda>j. if j = c
                          then c\<lparr>j_status := FAILED, j_attempts := j_attempts c + 1,
                                  j_lastError := Some ''ProductInsight not found'',
                                  j_nextRetryAt := None, j_updatedAt := tFail\<rparr>
                          else j) (insightJob s)\<rparr>])
      | Some ins \<Rightarrow>
          (Inr (Some (claimedJob c, claimedInsight ins)),
           [s\<lparr>insightJob :=
                map (\<lambda>j. if j = c
                          then c\<lparr>j_status := RUNNING, j_attempts := j_attempts c + 1,
                                  j_nextRetryAt := None, j_updatedAt := tUpd\<rparr>
                          else j) (insightJob s)\<rparr>,
            s\<lparr>insightJob :=
                map (\<lambda>j. if j = c
                          then c\<lparr>j_status := RUNNING, j_attempts := j_attempts c + 1,
                                  j_nextRetryAt := None, j_updatedAt := tUpd\<rparr>
                          else j) (insightJob s),
              productInsight :=
                map (\<lambda>i. if i_id i = i_id ins
                          then i\<lparr>i_aiStatus := Some RUNNING, i_aiError := None\<rparr> else i)
                  (productInsight s)\<rparr>]))"
proof -
  define c1 where "c1 = c\<lparr>j_status := RUNNING, j_attempts := j_attempts c + 1,
                           j_nextRetryAt := None, j_updatedAt := tUpd\<rparr>"
  define s1 where "s1 = s\<lparr>insightJob := map (\<lambda>j. if j = c then c1 else j) (insightJob s)\<rparr>"
  have mem: "c \<in> set (insightJob s)" by (rule claim_findFirst_Some(1) [OF cand])
  have tx: "claim_transaction now tUpd s = (Some (c\<lparr>j_attempts := j_attempts c + 1\<rparr>), [s1])"
    using claim_transaction_candidate [OF cand dist, of tUpd] by (simp add: s1_def c1_def)
  have fu: "findUnique_productInsight shop pid s1 = findUnique_productInsight shop pid s"
    for shop pid
    by (simp add: findUnique_productInsight_def s1_def)
  show ?thesis
  proof (cases "findUnique_productInsight (j_shop c) (j_productId c) s")
    case None
    have idmem: "j_id c \<in> set (map j_id (insightJob s1))"
      using mem by (force simp add: s1_def c1_def)
    have "map (\<lambda>j. if j_id j = j_id c
                     then j\<lparr>j_status := FAILED, j_lastError := Some ''ProductInsight not found'',
                             j_updatedAt := tFail\<rparr>
                     else j) (insightJob s1)
        = map (\<lambda>j. if j = c
                     then c\<lparr>j_status := FAILED, j_attempts := j_attempts c + 1,
                             j_lastError := Some ''ProductInsight not found'',
                             j_nextRetryAt := None, j_updatedAt := tFail\<rparr>
                     else j) (insightJob s)"
      unfolding s1_def using distinct_ids_eq [OF dist _ mem]
      by (auto simp add: c1_def)
    then have "claim_finish (c\<lparr>j_attempts := j_attempts c + 1\<rparr>) tFail s1 =
        (Inr None,
         [s\<lparr>insightJob :=
                map (\<lambda>j. if j = c
                          then c\<lparr>j_status := FAILED, j_attempts := j_attempts c + 1,
                                  j_lastError := Some ''ProductInsight not found'',
                                  j_nextRetryAt := None, j_updatedAt := tFail\<rparr>
                          else j) (insightJob s)\<rparr>])"
      using None idmem
      by (simp add: claim_finish_def fu update_insightJob_def) (simp add: s1_def)
    then show ?thesis
      using None by (simp add: claimNextJob_def tx) (simp add: s1_def c1_def)
  next
    case (Some ins)
    then have "i_id ins \<in> set (map i_id (productInsight s1))"
      unfolding findUnique_productInsight_def
      by (auto simp add: find_Some_iff s1_def)
    then have "claim_finish (c\<lparr>j_attempts := j_attempts c + 1\<rparr>) tFail s1 =
        (Inr (Some (claimedJob c, claimedInsight ins)),
         [s1\<lparr>productInsight :=
                map (\<lambda>i. if i_id i = i_id ins
                          then i\<lparr>i_aiStatus := Some RUNNING, i_aiError := None\<rparr> else i)
                  (productInsight s)\<rparr>])"
      using Some
      by (simp add: claim_finish_def fu update_productInsight_def claimedJob_def)
         (simp add: s1_def)
    then show ?thesis
      using Some by (simp add: claimNextJob_def tx) (simp add: s1_def c1_def)
  qed
qed


subsection \<open>The sample scenario: tick and completion\<close>

lemma ex_claim_missing:
  "claimNextJob 200 201 202 ex_after_batch =
      (Inr None,
       [ex_after_batch\<lparr>insightJob :=
          [\<lparr>j_id = ''job1'', j_shop = ''shopA'', j_productId = ''p1'',
            j_runId = Some ''run1'', j_status = RUNNING, j_attempts = 1,
            j_lastError = None, j_nextRetryAt = None,
            j_createdAt = 101, j_updatedAt = 201\<rparr>]\<rparr>,
        ex_after_batch\<lparr>insightJob :=
          [\<lparr>j_id = ''job1'', j_shop = ''shopA'', j_productId = ''p1'',
            j_runId = Some ''run1'', j_status = FAILED, j_attempts = 1,
            j_lastError = Some ''ProductInsight not found'', j_nextRetryAt = None,
            j_createdAt = 101, j_updatedAt = 202\<rparr>]\<rparr>])"
proof -
  have dist0: "distinct (map j_id (insightJob ex_after_batch))"
    by (simp add: ex_after_batch_eq)
  have noins0: "findUnique_productInsight ''shopA'' ''p1'' ex_after_batch = None"
    by (simp add: findUnique_productInsight_def ex_after_batch_eq)
  show ?thesis
    using claimNextJob_candidate [OF ex_after_batch_candidate dist0, of 201 202] noins0
    by (simp add: ex_after_batch_eq)
qed

lemma ex_tick_run:
  "tick ex_tick_env ex_after_batch =
      (Inr False,
       [ex_after_batch\<lparr>insightJob :=
          [\<lparr>j_id = ''job1'', j_shop = ''shopA'', j_productId = ''p1'',
            j_runId = Some ''run1'', j_status = RUNNING, j_attempts = 1,
            j_lastError = None, j_nextRetryAt = None,
            j_createdAt = 101, j_updatedAt = 201\<rparr>]\<rparr>,
        ex_after_batch\<lparr>insightJob :=
          [\<lparr>j_id = ''job1'', j_shop = ''shopA'', j_productId = ''p1'',
            j_runId = Some ''run1'', j_status = FAILED, j_attempts = 1,
            j_lastError = Some ''ProductInsight not found'', j_nextRetryAt = None,
            j_createdAt = 101, j_updatedAt = 202\<rparr>]\<rparr>])"
  by (simp add: tick_def ex_tick_env_def ex_claim_missing)

lemma ex_after_tick_eq:
  "ex_after_tick = ex_after_batch\<lparr>insightJob :=
          [\<lparr>j_id = ''job1'', j_shop = ''shopA'', j_productId = ''p1'',
            j_runId = Some ''run1'', j_status = FAILED, j_attempts = 1,
            j_lastError = Some ''ProductInsight not found'', j_nextRetryAt = None,
            j_createdAt = 101, j_updatedAt = 202\<rparr>]\<rparr>"
  by (simp add: ex_after_tick_def ex_tick_run)


lemma ex_after_completion_runs:
  "run ex_after_completion =
        [\<lparr>r_id = ''run1'', r_shop = ''shopA'', r_status = ''COMPLETED'',
          r_productsQueued = 1, r_succeeded = 0, r_failed = 0, r_createdAt = 100,
          r_completedAt = Some 300\<rparr>]"
  by (simp add: ex_after_completion_def ex_after_tick_eq ex_after_batch_eq
      updateRunCompletion_def pendingJobs_def activeStatus_def update_run_def)



text \<open>
  Claim C10. In a table with a primary key, let \<open>c\<close> be the candidate of \<open>claimNextJob\<close>
  and let no insight row exist for its shop and product. Then \<open>claimNextJob\<close> returns
  \<^verbatim>\<open>null\<close>; the candidate's row ends \<open>FAILED\<close> with the error \<^verbatim>\<open>ProductInsight not found\<close>
  (claimed first: attempts one more, \<open>nextRetryAt\<close> null) and no other job changes; and
  every state the call commits has the run table as it was, so no counter of the job's run
  moves. A run can so end \<open>COMPLETED\<close> with \<open>succeeded + failed < productsQueued\<close>: in the
  sample scenario (a batch request for one product without an insight, one tick, one pass
  of \<^verbatim>\<open>updateRunCompletion\<close>) the run is \<open>COMPLETED\<close> with both counters 0 and
  \<open>productsQueued = 1\<close>.
\<close>

theorem C10_missing_insight_leaves_run:
  assumes dist: "distinct (map j_id (insightJob s))"
    and cand: "claim_findFirst now s = Some c"
    and noins: "findUnique_productInsight (j_shop c) (j_productId c) s = None"
  shows "(\<exists>ws. claimNextJob now tUpd tFail s = (Inr None, ws)
      \<and> insightJob (finalStore s ws) =
          map (\<lambda>j. if j = c
                    then c\<lparr>j_status := FAILED, j_attempts := j_attempts c + 1,
                            j_lastError := Some ''ProductInsight not found'',
                            j_nextRetryAt := None, j_updatedAt := tFail\<rparr>
                    else j) (insightJob s)
      \<and> (\<forall>t\<in>set ws. run t = run s))
    \<and> tick ex_tick_env ex_after_batch
        = (Inr False, [ex_after_batch\<lparr>insightJob :=
                          [\<lparr>j_id = ''job1'', j_shop = ''shopA'', j_productId = ''p1'',
                            j_runId = Some ''run1'', j_status = RUNNING, j_attempts = 1,
                            j_lastError = None, j_nextRetryAt = None,
                            j_createdAt = 101, j_updatedAt = 201\<rparr>]\<rparr>,
                       ex_after_tick])
    \<and> insightJob ex_after_tick =
        [\<lparr>j_id = ''job1'', j_shop = ''shopA'', j_productId = ''p1'', j_runId = Some ''run1'',
          j_status = FAILED, j_attempts = 1, j_lastError = Some ''ProductInsight not found'',
          j_nextRetryAt = None, j_createdAt = 101, j_updatedAt = 202\<rparr>]
    \<and> run ex_after_completion =
        [\<lparr>r_id = ''run1'', r_shop = ''shopA'', r_status = ''COMPLETED'',
          r_productsQueued = 1, r_succeeded = 0, r_failed = 0, r_createdAt = 100,
          r_completedAt = Some 300\<rparr>]"
proof -
  have general: "\<exists>ws. claimNextJob now tUpd tFail s = (Inr None, ws)
      \<and> insightJob (finalStore s ws) =
          map (\<lambda>j. if j = c
                    then c\<lparr>j_status := FAILED, j_attempts := j_attempts c + 1,
                            j_lastError := Some ''ProductInsight not found'',
                            j_nextRetryAt := None, j_updatedAt := tFail\<rparr>
                    else j) (insightJob s)
      \<and> (\<forall>t\<in>set ws. run t = run s)"
    using claimNextJob_candidate [OF cand dist, of tUpd tFail] noins by simp
  have jobs: "insightJob ex_after_tick =
        [\<lparr>j_id = ''job1'', j_shop = ''shopA'', j_productId = ''p1'', j_runId = Some ''run1'',
          j_status = FAILED, j_attempts = 1, j_lastError = Some ''ProductInsight not found'',
          j_nextRetryAt = None, j_createdAt = 101, j_updatedAt = 202\<rparr>]"
    by (simp add: ex_after_tick_eq)
  have tick1: "tick ex_tick_env ex_after_batch
        = (Inr False, [ex_after_batch\<lparr>insightJob :=
                          [\<lparr>j_id = ''job1'', j_shop = ''shopA'', j_productId = ''p1'',
                            j_runId = Some ''run1'', j_status = RUNNING, j_attempts = 1,
                            j_lastError = None, j_nextRetryAt = None,
                            j_createdAt = 101, j_updatedAt = 201\<rparr>]\<rparr>,
                       ex_after_tick])"
    unfolding ex_after_tick_eq by (rule ex_tick_run)
  note runs = ex_after_completion_runs
  from general tick1 jobs runs show ?thesis
    by blast
qed

theorem C10_missing_insight_witness:
  "\<exists>ws. claimNextJob 200 201 202 ex_after_batch = (Inr None, ws)
     \<and> insightJob (finalStore ex_after_batch ws) =
         [\<lparr>j_id = ''job1'', j_shop = ''shopA'', j_productId = ''p1'', j_runId = Some ''run1'',
           j_status = FAILED, j_attempts = 1, j_lastError = Some ''ProductInsight not found'',
           j_nextRetryAt = None, j_createdAt = 101, j_updatedAt = 202\<rparr>]
     \<and> run (finalStore ex_after_batch ws) = run ex_after_batch"
proof -
  have dist0: "distinct (map j_id (insightJob ex_after_batch))"
    by (simp add: ex_after_batch_eq)
  have noins0: "findUnique_productInsight
      (j_shop \<lparr>j_id = ''job1'', j_shop = ''shopA'', j_productId = ''p1'', j_runId = Some ''run1'',
           j_status = QUEUED, j_attempts = 0, j_lastError = None, j_nextRetryAt = None,
           j_createdAt = 101, j_updatedAt = 101\<rparr>)
      (j_productId \<lparr>j_id = ''job1'', j_shop = ''shopA'', j_productId = ''p1'',
           j_runId = Some ''run1'',
           j_status = QUEUED, j_attempts = 0, j_lastError = None, j_nextRetryAt = None,
           j_createdAt = 101, j_updatedAt = 101\<rparr>) ex_after_batch = None"
    by (simp add: findUnique_productInsight_def ex_after_batch_eq)
  have jobs: "insightJob ex_after_batch =
         [\<lparr>j_id = ''job1'', j_shop = ''shopA'', j_productId = ''p1'', j_runId = Some ''run1'',
           j_status = QUEUED, j_attempts = 0, j_lastError = None, j_nextRetryAt = None,
           j_createdAt = 101, j_updatedAt = 101\<rparr>]"
    by (simp add: ex_after_batch_eq)
  from C10_missing_insight_leaves_run [OF dist0 ex_after_batch_candidate noins0, of 201 202]
  obtain ws where h: "claimNextJob 200 201 202 ex_after_batch = (Inr None, ws)"
    "insightJob (finalStore ex_after_batch ws) =
         [\<lparr>j_id = ''job1'', j_shop = ''shopA'', j_productId = ''p1'', j_runId = Some ''run1'',
           j_status = FAILED, j_attempts = 1, j_lastError = Some ''ProductInsight not found'',
           j_nextRetryAt = None, j_createdAt = 101, j_updatedAt = 202\<rparr>]"
    "\<forall>t\<in>set ws. run t = run ex_after_batch"
    by (auto simp add: jobs)
  have "ws \<noteq> []"
    using h(2) jobs by auto
  then have "finalStore ex_after_batch ws \<in> set ws"
    by (simp add: finalStore_def)
  with h show ?thesis by blast
qed

subsection \<open>The uninstall webhook\<close>

lemma purge_webhookEvent [simp]: "webhookEvent (purge shop s) = webhookEvent s"
  by (simp add: purge_def deleteMany_session_def deleteMany_productInsight_def
      deleteMany_run_def deleteMany_insightJob_def)

text \<open>The function \<open>uninstalled_action\<close> is the handler run on its own, step by step.\<close>

lemma uninstalled_action_hrun:
  "hrun 4 webhookId auth H_Start s =
     (case uninstalled_action webhookId auth s of
        (Inl err, ws) \<Rightarrow> (H_Threw err, finalStore s ws)
      | (Inr a, ws) \<Rightarrow> (H_Done a, finalStore s ws))"
  by (simp add: numeral_eq_Suc hstep_def uninstalled_action_def truthy_def
      split: sum.splits option.splits prod.splits)


lemma find_webhookId:
  "find (\<lambda>e. we_webhookId e = wid) (webhookEvent s) = None \<longleftrightarrow> \<not> recorded wid s"
  "(\<exists>y. find (\<lambda>e. we_webhookId e = wid) (webhookEvent s) = Some y) \<longleftrightarrow> recorded wid s"
  using find_id_None [of we_webhookId wid "webhookEvent s"]
  by (auto simp add: recorded_def)

lemma create_webhookEvent_cases:
  "create_webhookEvent wid topic shop s =
     (if recorded wid s then Inl UniqueConstraintFailed
      else Inr (s\<lparr>webhookEvent := webhookEvent s @
                    [\<lparr>we_webhookId = wid, we_topic = topic, we_shop = shop\<rparr>]\<rparr>))"
  by (simp add: create_webhookEvent_def recorded_def)

lemma recorded_after_create [simp]:
  "recorded wid (s\<lparr>webhookEvent := webhookEvent s @
                    [\<lparr>we_webhookId = wid, we_topic = topic, we_shop = shop\<rparr>]\<rparr>)"
  by (simp add: recorded_def)

lemma recorded_purge [simp]: "recorded wid (purge shop s) = recorded wid s"
  by (simp add: recorded_def)

lemma hstep_authentic:
  assumes wid: "wid \<noteq> []"
  shows "hstep (Some wid) (Inr (shop, topic)) pc s =
     (case pc of
        H_Start \<Rightarrow> Some (if recorded wid s then H_Done AlreadySeen else H_Checked, s)
      | H_Checked \<Rightarrow> Some (H_Authed shop topic, s)
      | H_Authed sh tp \<Rightarrow>
          (if recorded wid s then Some (H_Done InsertConflict, s)
           else Some (H_Recorded sh,
                      s\<lparr>webhookEvent := webhookEvent s @
                           [\<lparr>we_webhookId = wid, we_topic = tp, we_shop = sh\<rparr>]\<rparr>))
      | H_Recorded sh \<Rightarrow> Some (H_Done Purged, purge sh s)
      | H_Done a \<Rightarrow> None
      | H_Threw err \<Rightarrow> None)"
  using wid
  by (simp add: hstep_def truthy_def find_webhookId create_webhookEvent_cases split: hpc.splits)

lemma pair_inv_one_step:
  assumes wid: "wid \<noteq> []"
    and inv: "\<not> rejected p \<and> \<not> rejected q
          \<and> purging p + purging q = (if recorded wid s then 1 else 0)
          \<and> (skipped p \<longrightarrow> recorded wid s) \<and> (skipped q \<longrightarrow> recorded wid s)"
    and step: "hstep (Some wid) (Inr (shop, topic)) p s = Some (p', s')"
  shows "\<not> rejected p' \<and> \<not> rejected q
          \<and> purging p' + purging q = (if recorded wid s' then 1 else 0)
          \<and> (skipped p' \<longrightarrow> recorded wid s') \<and> (skipped q \<longrightarrow> recorded wid s')"
proof (cases p)
  case H_Start
  then show ?thesis
    using inv step by (auto simp add: hstep_authentic [OF wid] rejected_def purging_def
        skipped_def split: if_splits)
next
  case H_Checked
  then show ?thesis
    using inv step by (auto simp add: hstep_authentic [OF wid] rejected_def purging_def
        skipped_def split: if_splits)
next
  case (H_Authed sh tp)
  then show ?thesis
    using inv step by (auto simp add: hstep_authentic [OF wid] rejected_def purging_def
        skipped_def split: if_splits)
next
  case (H_Recorded sh)
  then show ?thesis
    using inv step by (auto simp add: hstep_authentic [OF wid] rejected_def purging_def
        skipped_def split: if_splits)
next
  case (H_Done a)
  then show ?thesis
    using step by (simp add: hstep_authentic [OF wid])
next
  case (H_Threw err)
  then show ?thesis
    using step by (simp add: hstep_authentic [OF wid])
qed

lemma pair_inv_dstep:
  assumes wid: "wid \<noteq> []"
    and inv: "pair_inv wid cfg"
    and step: "dstep (Some wid) (Inr (shop1, topic1)) (Inr (shop2, topic2)) cfg cfg'"
  shows "pair_inv wid cfg'"
  using step
proof cases
  case (first p1 s p1' s' p2)
  then show ?thesis
    using inv pair_inv_one_step [OF wid _ first(3), of p2]
    by (simp add: pair_inv_def)
next
  case (second p2 s p2' s' p1)
  then show ?thesis
    using inv pair_inv_one_step [OF wid _ second(3), of p1]
    by (simp add: pair_inv_def add.commute)
qed

lemma pair_inv_reachable:
  assumes wid: "wid \<noteq> []"
    and new: "\<not> recorded wid s"
    and reach: "rtranclp (dstep (Some wid) (Inr (shop1, topic1)) (Inr (shop2, topic2)))
                  (s, H_Start, H_Start) cfg"
  shows "pair_inv wid cfg"
  using reach
proof (induction rule: rtranclp_induct)
  case base
  show ?case using new by (simp add: pair_inv_def rejected_def purging_def skipped_def)
next
  case (step y z)
  then show ?case using pair_inv_dstep [OF wid] by blast
qed

lemma pair_stuck_done:
  assumes wid: "wid \<noteq> []"
    and stuck: "\<forall>cfg'. \<not> dstep (Some wid) (Inr (shop1, topic1)) (Inr (shop2, topic2)) (s, p1, p2) cfg'"
    and ok: "\<not> rejected p1" "\<not> rejected p2"
  shows "\<exists>a b. p1 = H_Done a \<and> p2 = H_Done b"
proof -
  have "hstep (Some wid) (Inr (shop1, topic1)) p1 s = None"
    using stuck dstep.first [of "Some wid" "Inr (shop1, topic1)" p1 s _ _ "Inr (shop2, topic2)" p2]
    by (cases "hstep (Some wid) (Inr (shop1, topic1)) p1 s") auto
  then have a: "\<exists>a. p1 = H_Done a"
    using ok(1) by (cases p1) (simp_all add: hstep_authentic [OF wid] rejected_def split: if_splits)
  have "hstep (Some wid) (Inr (shop2, topic2)) p2 s = None"
    using stuck dstep.second [of "Some wid" "Inr (shop2, topic2)" p2 s _ _ "Inr (shop1, topic1)" p1]
    by (cases "hstep (Some wid) (Inr (shop2, topic2)) p2 s") auto
  then have b: "\<exists>b. p2 = H_Done b"
    using ok(2) by (cases p2) (simp_all add: hstep_authentic [OF wid] rejected_def split: if_splits)
  from a b show ?thesis by blast
qed

lemma purging_Done: "purging (H_Done a) = (if a = Purged then 1 else 0)"
  by (cases a) (simp_all add: purging_def)

lemma skipped_Done: "skipped (H_Done a) \<longleftrightarrow> a \<noteq> Purged"
  by (cases a) (simp_all add: skipped_def)

lemma hstep_hrank: "hstep webhookId auth pc s = Some (pc', s') \<Longrightarrow> hrank pc' < hrank pc"
  by (cases pc)
     (auto simp add: hstep_def hrank_def split: if_splits sum.splits option.splits prod.splits)

lemma dstep_hrank:
  assumes "dstep webhookId auth1 auth2 (s, p1, p2) (s', q1, q2)"
  shows "hrank q1 + hrank q2 < hrank p1 + hrank p2"
  using assms by cases (auto dest: hstep_hrank)

lemma uninstalled_first_delivery:
  assumes wid: "wid \<noteq> []" and new: "\<not> recorded wid s"
  shows "uninstalled_action (Some wid) (Inr (shop, topic)) s =
      (Inr Purged,
       [s\<lparr>webhookEvent := webhookEvent s @
             [\<lparr>we_webhookId = wid, we_topic = topic, we_shop = shop\<rparr>]\<rparr>,
        purge shop (s\<lparr>webhookEvent := webhookEvent s @
             [\<lparr>we_webhookId = wid, we_topic = topic, we_shop = shop\<rparr>]\<rparr>)])"
  using wid new
  by (simp add: uninstalled_action_def truthy_def find_webhookId create_webhookEvent_cases)

lemma uninstalled_seen:
  assumes wid: "wid \<noteq> []" and seen: "recorded wid s"
  shows "uninstalled_action (Some wid) auth s = (Inr AlreadySeen, [])"
  using wid seen
  by (simp add: uninstalled_action_def truthy_def find_webhookId)

text \<open>
  Claim C5. Let the delivery id \<open>wid\<close> be non-empty and new to the \<^verbatim>\<open>WebhookEvent\<close> table.
  One after the other: the first authentic delivery records the event and then purges the
  shop, and answers 200; on the store it leaves, a second delivery with the same id
  answers 200 from the look-up and writes nothing. Concurrently, for two authentic
  deliveries with the same id whose awaited operations interleave in any order: every
  step uses up one of at most eight operations; at no time has more than one of the two
  passed the \<^verbatim>\<open>create\<close>; and when neither can step, both have answered 200 and exactly one
  of them has executed the purge, the other having answered from the look-up or from the
  insert conflict.
\<close>

theorem C5_duplicate_delivery_one_purge:
  assumes wid: "wid \<noteq> []"
    and new: "wid \<notin> set (map we_webhookId (webhookEvent s))"
  shows "(\<exists>s1. uninstalled_action (Some wid) (Inr (shop, topic)) s
               = (Inr Purged, [s1, purge shop s1])
            \<and> (\<forall>auth. uninstalled_action (Some wid) auth (purge shop s1)
                        = (Inr AlreadySeen, [])))
    \<and> (\<forall>s' p1 p2.
          rtranclp (dstep (Some wid) (Inr (shop, topic)) (Inr (shop2, topic2)))
            (s, H_Start, H_Start) (s', p1, p2)
          \<longrightarrow> purging p1 + purging p2 \<le> 1
            \<and> (\<forall>s'' q1 q2.
                  dstep (Some wid) (Inr (shop, topic)) (Inr (shop2, topic2))
                    (s', p1, p2) (s'', q1, q2)
                  \<longrightarrow> hrank q1 + hrank q2 < hrank p1 + hrank p2)
            \<and> ((\<forall>cfg. \<not> dstep (Some wid) (Inr (shop, topic)) (Inr (shop2, topic2))
                           (s', p1, p2) cfg)
                \<longrightarrow> (\<exists>a b. p1 = H_Done a \<and> p2 = H_Done b
                      \<and> (a = Purged) \<noteq> (b = Purged)
                      \<and> responseStatus a = 200 \<and> responseStatus b = 200)))"
proof -
  have new': "\<not> recorded wid s"
    using new by (simp add: recorded_def)
  define s1 where "s1 = s\<lparr>webhookEvent := webhookEvent s @
             [\<lparr>we_webhookId = wid, we_topic = topic, we_shop = shop\<rparr>]\<rparr>"
  have fst: "uninstalled_action (Some wid) (Inr (shop, topic)) s
               = (Inr Purged, [s1, purge shop s1])"
    using uninstalled_first_delivery [OF wid new'] by (simp add: s1_def)
  have "recorded wid (purge shop s1)"
    by (simp add: s1_def)
  then have snd: "\<forall>auth. uninstalled_action (Some wid) auth (purge shop s1)
                        = (Inr AlreadySeen, [])"
    using uninstalled_seen [OF wid] by blast
  have conc: "purging p1 + purging p2 \<le> 1
            \<and> (\<forall>s'' q1 q2.
                  dstep (Some wid) (Inr (shop, topic)) (Inr (shop2, topic2))
                    (s', p1, p2) (s'', q1, q2)
                  \<longrightarrow> hrank q1 + hrank q2 < hrank p1 + hrank p2)
            \<and> ((\<forall>cfg. \<not> dstep (Some wid) (Inr (shop, topic)) (Inr (shop2, topic2))
                           (s', p1, p2) cfg)
                \<longrightarrow> (\<exists>a b. p1 = H_Done a \<and> p2 = H_Done b
                      \<and> (a = Purged) \<noteq> (b = Purged)
                      \<and> responseStatus a = 200 \<and> responseStatus b = 200))"
    if reach: "rtranclp (dstep (Some wid) (Inr (shop, topic)) (Inr (shop2, topic2)))
            (s, H_Start, H_Start) (s', p1, p2)" for s' p1 p2
  proof -
    have inv: "pair_inv wid (s', p1, p2)"
      by (rule pair_inv_reachable [OF wid new' reach])
    then have one: "purging p1 + purging p2 \<le> 1"
      by (simp add: pair_inv_def)
    have rank: "\<forall>s'' q1 q2.
                  dstep (Some wid) (Inr (shop, topic)) (Inr (shop2, topic2))
                    (s', p1, p2) (s'', q1, q2)
                  \<longrightarrow> hrank q1 + hrank q2 < hrank p1 + hrank p2"
      using dstep_hrank by blast
    have fin: "\<exists>a b. p1 = H_Done a \<and> p2 = H_Done b
                      \<and> (a = Purged) \<noteq> (b = Purged)
                      \<and> responseStatus a = 200 \<and> responseStatus b = 200"
      if stuck: "\<forall>cfg. \<not> dstep (Some wid) (Inr (shop, topic)) (Inr (shop2, topic2))
                           (s', p1, p2) cfg"
    proof -
      from inv have ok: "\<not> rejected p1" "\<not> rejected p2"
        by (simp_all add: pair_inv_def)
      from pair_stuck_done [OF wid stuck ok]
      obtain a b where ab: "p1 = H_Done a" "p2 = H_Done b" by blast
      have sum: "purging (H_Done a) + purging (H_Done b) = (if recorded wid s' then 1 else 0)"
        and sk: "skipped (H_Done a) \<longrightarrow> recorded wid s'" "skipped (H_Done b) \<longrightarrow> recorded wid s'"
        using inv by (simp_all add: ab pair_inv_def)
      have "(a = Purged) \<noteq> (b = Purged)"
      proof (cases "recorded wid s'")
        case True
        then show ?thesis
          using sum by (simp add: purging_Done split: if_splits)
      next
        case False
        then have "a = Purged" "b = Purged"
          using sk by (simp_all add: skipped_Done)
        then show ?thesis
          using sum False by (simp add: purging_Done)
      qed
      then show ?thesis
        using ab by (simp add: responseStatus_def)
    qed
    from one rank fin show ?thesis by blast
  qed
  from fst snd conc show ?thesis by blast
qed

theorem C5_duplicate_delivery_witness:
  "\<exists>s1. uninstalled_action (Some ''d1'') (Inr (''shopA'', ''app/uninstalled'')) ex_store
            = (Inr Purged, [s1, purge ''shopA'' s1])
     \<and> uninstalled_action (Some ''d1'') (Inr (''shopA'', ''app/uninstalled'')) (purge ''shopA'' s1)
            = (Inr AlreadySeen, [])
     \<and> insightJob (purge ''shopA'' s1) = [] \<and> run (purge ''shopA'' s1) = []
     \<and> rtranclp (dstep (Some ''d1'') (Inr (''shopA'', ''app/uninstalled''))
                   (Inr (''shopA'', ''app/uninstalled'')))
          (ex_store, H_Start, H_Start)
          (purge ''shopA'' s1, H_Done Purged, H_Done InsertConflict)
     \<and> purging (H_Done Purged) + purging (H_Done InsertConflict) \<le> 1"
proof -
  let ?a = "Inr (''shopA'', ''app/uninstalled'') :: thrown + (string \<times> string)"
  let ?R = "dstep (Some ''d1'') ?a ?a"
  define s1 where "s1 = ex_store\<lparr>webhookEvent :=
      [\<lparr>we_webhookId = ''d1'', we_topic = ''app/uninstalled'', we_shop = ''shopA''\<rparr>]\<rparr>"
  have wid: "''d1'' \<noteq> []" by simp
  have new: "''d1'' \<notin> set (map we_webhookId (webhookEvent ex_store))"
    by (simp add: ex_store_def)
  have new': "\<not> recorded ''d1'' ex_store"
    by (simp add: recorded_def ex_store_def)
  have rec1: "recorded ''d1'' s1"
    by (simp add: recorded_def s1_def)
  have s1_eq: "ex_store\<lparr>webhookEvent := webhookEvent ex_store @
      [\<lparr>we_webhookId = ''d1'', we_topic = ''app/uninstalled'', we_shop = ''shopA''\<rparr>]\<rparr> = s1"
    by (simp add: s1_def ex_store_def)
  have st1: "?R (ex_store, H_Start, H_Start) (ex_store, H_Checked, H_Start)"
    by (rule dstep.first) (simp add: hstep_authentic [OF wid] new')
  have st2: "?R (ex_store, H_Checked, H_Start) (ex_store, H_Checked, H_Checked)"
    by (rule dstep.second) (simp add: hstep_authentic [OF wid] new')
  have st3: "?R (ex_store, H_Checked, H_Checked)
                (ex_store, H_Authed ''shopA'' ''app/uninstalled'', H_Checked)"
    by (rule dstep.first) (simp add: hstep_authentic [OF wid])
  have st4: "?R (ex_store, H_Authed ''shopA'' ''app/uninstalled'', H_Checked)
                (ex_store, H_Authed ''shopA'' ''app/uninstalled'',
                 H_Authed ''shopA'' ''app/uninstalled'')"
    by (rule dstep.second) (simp add: hstep_authentic [OF wid])
  have st5: "?R (ex_store, H_Authed ''shopA'' ''app/uninstalled'',
                 H_Authed ''shopA'' ''app/uninstalled'')
                (s1, H_Recorded ''shopA'', H_Authed ''shopA'' ''app/uninstalled'')"
    by (rule dstep.first) (simp add: hstep_authentic [OF wid] new' s1_eq)
  have st6: "?R (s1, H_Recorded ''shopA'', H_Authed ''shopA'' ''app/uninstalled'')
                (s1, H_Recorded ''shopA'', H_Done InsertConflict)"
    by (rule dstep.second) (simp add: hstep_authentic [OF wid] rec1)
  have st7: "?R (s1, H_Recorded ''shopA'', H_Done InsertConflict)
                (purge ''shopA'' s1, H_Done Purged, H_Done InsertConflict)"
    by (rule dstep.first) (simp add: hstep_authentic [OF wid])
  have path: "rtranclp ?R (ex_store, H_Start, H_Start)
                (purge ''shopA'' s1, H_Done Purged, H_Done InsertConflict)"
    using st1 st2 st3 st4 st5 st6 st7
    by (meson rtranclp.rtrancl_into_rtrancl rtranclp.rtrancl_refl)
  have purged: "insightJob (purge ''shopA'' s1) = []" "run (purge ''shopA'' s1) = []"
    by (simp_all add: purge_def deleteMany_session_def deleteMany_productInsight_def
        deleteMany_run_def deleteMany_insightJob_def s1_def ex_store_def ex_job_def ex_run_def)
  from C5_duplicate_delivery_one_purge [OF wid new, of "''shopA''" "''app/uninstalled''"
      "''shopA''" "''app/uninstalled''"]
  obtain t1 where t1: "uninstalled_action (Some ''d1'') ?a ex_store
               = (Inr Purged, [t1, purge ''shopA'' t1])"
    and again: "\<forall>auth. uninstalled_action (Some ''d1'') auth (purge ''shopA'' t1)
                        = (Inr AlreadySeen, [])"
    and conc: "\<forall>s' p1 p2. rtranclp ?R (ex_store, H_Start, H_Start) (s', p1, p2)
          \<longrightarrow> purging p1 + purging p2 \<le> 1"
    by blast
  have "t1 = s1"
    using t1 uninstalled_first_delivery [OF wid new', of "''shopA''" "''app/uninstalled''"]
    by (simp add: s1_eq)
  with t1 again conc path purged show ?thesis
    by blast
qed

subsection \<open>Concurrent callers of the claim\<close>

text \<open>The function \<open>claimNextJob\<close> is a call run on its own, operation by operation.\<close>

lemma claimNextJob_crun:
  "crun 4 now tUpd tFail C_Start s =
     (case claimNextJob now tUpd tFail s of
        (Inl err, ws) \<Rightarrow> (C_Threw err, finalStore s ws)
      | (Inr res, ws) \<Rightarrow> (C_Done res, finalStore s ws))"
proof (cases "claim_findFirst now s")
  case None
  then show ?thesis
    by (simp add: numeral_eq_Suc cstep_def cclock_def claimNextJob_def claim_transaction_def)
next
  case (Some c)
  obtain n s1 where um: "claim_updateMany c tUpd s = (n, s1)"
    by (cases "claim_updateMany c tUpd s")
  show ?thesis
  proof (cases "n = 0")
    case True
    then show ?thesis
      using Some um
      by (simp add: numeral_eq_Suc cstep_def cclock_def claimNextJob_def claim_transaction_def)
  next
    case False
    then show ?thesis
      using Some um
      by (simp add: numeral_eq_Suc cstep_def cclock_def claimNextJob_def claim_transaction_def
          claim_finish_def split: option.splits sum.splits)
  qed
qed




















subsection \<open>The invariant of the runs\<close>

















subsection \<open>The writes of a tick keep the invariant\<close>



















subsection \<open>The writes of a request keep the invariant\<close>








subsection \<open>Completion, purge and the other routes keep the invariant\<close>









subsection \<open>Every observable state\<close>







end
